theory Spec2Isabelle
  imports Main
begin

section \<open>Python values\<close>

text \<open>
  The webhook handler of \<^verbatim>\<open>app.py\<close> works on whatever \<^verbatim>\<open>request.json\<close> returns and on the
  rule table \<^verbatim>\<open>json.load\<close> read at start-up: untyped Python values built from
  \<^verbatim>\<open>None\<close>, booleans, integers, strings, lists and dictionaries with string keys.
  A dictionary is an association list in insertion order; a key is looked up with
  \<open>map_of\<close>. Numbers are integers: JSON numbers with a fraction are outside the model.
  A character is a code point below 256, so a string is a Python \<^verbatim>\<open>str\<close> over Latin-1.
\<close>

datatype json =
  JNull
  | JBool bool
  | JInt int
  | JStr string
  | JArr "json list"
  | JObj "(string \<times> json) list"

text \<open>
  The exceptions the handler can let escape. \<open>DatetimeRangeError\<close> stands for what
  \<^verbatim>\<open>datetime.fromtimestamp\<close> raises out of range (\<^verbatim>\<open>OverflowError\<close>, \<^verbatim>\<open>ValueError\<close> or \<^verbatim>\<open>OSError\<close>);
  \<open>DBAPIError\<close> for a list or dictionary the database driver cannot bind;
  \<open>OverflowError\<close> for an integer outside 64 bits, which \<^verbatim>\<open>sqlite3\<close> refuses with the
  built-in exception; \<open>IntegrityError\<close> for a violated \<^verbatim>\<open>unique\<close> or \<^verbatim>\<open>nullable=False\<close>
  constraint.
\<close>

datatype error =
  AttributeError
  | KeyError
  | IndexError
  | TypeError
  | DatetimeRangeError
  | UnboundLocalError
  | IntegrityError
  | DBAPIError
  | OverflowError

text \<open>Truth value testing: \<^verbatim>\<open>if v\<close>, \<^verbatim>\<open>not v\<close>, \<^verbatim>\<open>a and b\<close>.\<close>

fun truthy :: "json \<Rightarrow> bool" where
  "truthy JNull = False"
| "truthy (JBool b) = b"
| "truthy (JInt n) = (n \<noteq> 0)"
| "truthy (JStr s) = (s \<noteq> [])"
| "truthy (JArr xs) = (xs \<noteq> [])"
| "truthy (JObj kvs) = (kvs \<noteq> [])"

text \<open>\<^verbatim>\<open>d.get(k)\<close>: only a dictionary has the method.\<close>

fun py_get :: "json \<Rightarrow> string \<Rightarrow> error + json" where
  "py_get (JObj kvs) k = Inr (case map_of kvs k of None \<Rightarrow> JNull | Some v \<Rightarrow> v)"
| "py_get _ k = Inl AttributeError"

text \<open>\<^verbatim>\<open>d.get(k, default)\<close>: a key that is present with value \<^verbatim>\<open>None\<close> yields \<^verbatim>\<open>None\<close>.\<close>

fun py_get_default :: "json \<Rightarrow> string \<Rightarrow> json \<Rightarrow> error + json" where
  "py_get_default (JObj kvs) k d = Inr (case map_of kvs k of None \<Rightarrow> d | Some v \<Rightarrow> v)"
| "py_get_default _ k d = Inl AttributeError"

text \<open>
  \<^verbatim>\<open>d.get(key)\<close> where the key is itself a payload value: the keys of a loaded JSON object
  are strings, so only a string can be found; a list or a dictionary is unhashable.
\<close>

fun py_get_key :: "json \<Rightarrow> json \<Rightarrow> error + json" where
  "py_get_key (JObj kvs) (JStr k) = Inr (case map_of kvs k of None \<Rightarrow> JNull | Some v \<Rightarrow> v)"
| "py_get_key (JObj kvs) (JArr xs) = Inl TypeError"
| "py_get_key (JObj kvs) (JObj xs) = Inl TypeError"
| "py_get_key (JObj kvs) _ = Inr JNull"
| "py_get_key _ _ = Inl AttributeError"

text \<open>\<^verbatim>\<open>v["k"]\<close> with a string key.\<close>

fun py_getitem :: "json \<Rightarrow> string \<Rightarrow> error + json" where
  "py_getitem (JObj kvs) k = (case map_of kvs k of None \<Rightarrow> Inl KeyError | Some v \<Rightarrow> Inr v)"
| "py_getitem _ k = Inl TypeError"

text \<open>\<^verbatim>\<open>v[0]\<close>.\<close>

fun py_first :: "json \<Rightarrow> error + json" where
  "py_first (JArr []) = Inl IndexError"
| "py_first (JArr (x # xs)) = Inr x"
| "py_first (JStr []) = Inl IndexError"
| "py_first (JStr (c # cs)) = Inr (JStr [c])"
| "py_first (JObj kvs) = Inl KeyError"
| "py_first _ = Inl TypeError"

text \<open>\<^verbatim>\<open>for x in v\<close>: the elements of a list, the characters of a string, the keys of a dictionary.\<close>

fun py_iter :: "json \<Rightarrow> error + json list" where
  "py_iter (JArr xs) = Inr xs"
| "py_iter (JStr s) = Inr (map (\<lambda>c. JStr [c]) s)"
| "py_iter (JObj kvs) = Inr (map (\<lambda>kv. JStr (fst kv)) kvs)"
| "py_iter _ = Inl TypeError"

text \<open>The left operand of \<^verbatim>\<open>v / 1000\<close>; \<^verbatim>\<open>bool\<close> is a subclass of \<^verbatim>\<open>int\<close>.\<close>

fun py_number :: "json \<Rightarrow> error + int" where
  "py_number (JInt n) = Inr n"
| "py_number (JBool b) = Inr (if b then 1 else 0)"
| "py_number _ = Inl TypeError"

section \<open>Strings\<close>

text \<open>
  \<^verbatim>\<open>str.lower()\<close> on code points below 256: the upper-case letters are A to Z and
  U+00C0 to U+00DE without the multiplication sign U+00D7; each lower-case partner is 32
  further on, which sets the bit of value 32.
\<close>

definition lower_char :: "char \<Rightarrow> char" where
  "lower_char c =
     (let n = (of_char c :: nat) in
      if (65 \<le> n \<and> n \<le> 90) \<or> (192 \<le> n \<and> n \<le> 222 \<and> n \<noteq> 215)
      then (case c of Char b0 b1 b2 b3 b4 b5 b6 b7 \<Rightarrow> Char b0 b1 b2 b3 b4 True b6 b7)
      else c)"

definition lower :: "string \<Rightarrow> string" where
  "lower s = map lower_char s"

text \<open>\<^verbatim>\<open>v.lower()\<close> on a payload value.\<close>

fun py_lower :: "json \<Rightarrow> error + string" where
  "py_lower (JStr s) = Inr (lower s)"
| "py_lower _ = Inl AttributeError"

fun startswith :: "string \<Rightarrow> string \<Rightarrow> bool" where
  "startswith s [] = True"
| "startswith [] (p # ps) = False"
| "startswith (c # cs) (p # ps) = (c = p \<and> startswith cs ps)"

text \<open>\<^verbatim>\<open>sub in s\<close> on strings.\<close>

fun py_in :: "string \<Rightarrow> string \<Rightarrow> bool" where
  "py_in sub [] = (sub = [])"
| "py_in sub (c # cs) = (startswith (c # cs) sub \<or> py_in sub cs)"

text \<open>
  \<^verbatim>\<open>s.replace(old, new)\<close>: left to right, each occurrence of \<open>old\<close> found in what is
  left of \<open>s\<close> gives way to \<open>new\<close>, and the scan goes on behind the occurrence.
\<close>

function py_replace :: "string \<Rightarrow> string \<Rightarrow> string \<Rightarrow> string" where
  "py_replace [] old new = (if old = [] then new else [])"
| "py_replace (c # cs) old new =
     (if old = [] then new @ c # py_replace cs old new
      else if startswith (c # cs) old
        then new @ py_replace (drop (length old) (c # cs)) old new
      else c # py_replace cs old new)"
  by pat_completeness auto
termination
  by (relation "measure (\<lambda>(s, old, new). length s)") auto

fun string_of_nat :: "nat \<Rightarrow> string" where
  "string_of_nat n =
     (if n < 10 then [''0123456789'' ! n]
      else string_of_nat (n div 10) @ [''0123456789'' ! (n mod 10)])"

declare string_of_nat.simps [simp del]

definition string_of_int :: "int \<Rightarrow> string" where
  "string_of_int i = (if i < 0 then CHR ''-'' # string_of_nat (nat (- i)) else string_of_nat (nat i))"

text \<open>
  \<^verbatim>\<open>repr\<close> of a string: single quotes unless the string has a single and no double quote;
  backslash, the quote, tab, newline and carriage return are escaped, every other
  unprintable code point is written \<^verbatim>\<open>\xhh\<close>.
\<close>

definition hex_digit :: "nat \<Rightarrow> char" where
  "hex_digit n = ''0123456789abcdef'' ! n"

definition printable :: "char \<Rightarrow> bool" where
  "printable c =
     (let n = (of_char c :: nat) in (32 \<le> n \<and> n < 127) \<or> (161 \<le> n \<and> n \<noteq> 173))"

definition repr_char :: "char \<Rightarrow> char \<Rightarrow> string" where
  "repr_char q c =
     (if c = CHR 0x5C then [CHR 0x5C, CHR 0x5C]
      else if c = q then [CHR 0x5C, q]
      else if c = CHR 0x09 then [CHR 0x5C, CHR ''t'']
      else if c = CHR 0x0A then [CHR 0x5C, CHR ''n'']
      else if c = CHR 0x0D then [CHR 0x5C, CHR ''r'']
      else if printable c then [c]
      else [CHR 0x5C, CHR ''x'', hex_digit (of_char c div 16), hex_digit (of_char c mod 16)])"

definition repr_str :: "string \<Rightarrow> string" where
  "repr_str s =
     (let q = (if CHR 0x27 \<in> set s \<and> CHR 0x22 \<notin> set s then CHR 0x22 else CHR 0x27)
      in [q] @ concat (map (repr_char q) s) @ [q])"

fun join :: "string \<Rightarrow> string list \<Rightarrow> string" where
  "join sep [] = []"
| "join sep [x] = x"
| "join sep (x # y # ys) = x @ sep @ join sep (y # ys)"

fun py_repr :: "json \<Rightarrow> string" where
  "py_repr JNull = ''None''"
| "py_repr (JBool b) = (if b then ''True'' else ''False'')"
| "py_repr (JInt n) = string_of_int n"
| "py_repr (JStr s) = repr_str s"
| "py_repr (JArr xs) = ''['' @ join '', '' (map py_repr xs) @ '']''"
| "py_repr (JObj kvs) =
     ''{'' @ join '', '' (map (\<lambda>(k, v). repr_str k @ '': '' @ py_repr v) kvs) @ ''}''"

text \<open>\<^verbatim>\<open>str(v)\<close>, also what an f-string puts for \<^verbatim>\<open>{v}\<close>.\<close>

fun py_str :: "json \<Rightarrow> string" where
  "py_str (JStr s) = s"
| "py_str v = py_repr v"

section \<open>Configuration and the outside world\<close>

text \<open>
  \<^verbatim>\<open>INSTAGRAM_ACCOUNTS_CONFIG\<close> is a list of \<^verbatim>\<open>{"page_id": ..., "page_access_token": ...}\<close>.
\<close>

record account_config =
  page_id :: string
  page_access_token :: string

text \<open>A request handed to \<^verbatim>\<open>requests.post\<close>: page id, access token, recipient and text of a
  direct message, or access token, comment id and text of a private reply.\<close>

datatype outbound =
  DirectMessage string string json string
  | PrivateReply string json string

text \<open>
  What comes back from the Graph API. \<open>Success\<close>: a 2xx response with a JSON body.
  \<open>ErrorResponse\<close>: a response arrived and \<^verbatim>\<open>raise_for_status\<close> or \<^verbatim>\<open>response.json\<close> raised a
  \<^verbatim>\<open>RequestException\<close>. \<open>NoResponse\<close>: \<^verbatim>\<open>requests.post\<close> itself raised one (connection
  error, timeout), so the local variable \<^verbatim>\<open>response\<close> was never assigned.
\<close>

datatype http_outcome = Success | ErrorResponse | NoResponse

text \<open>
  The module-level globals, and what the program depends on outside itself: the range
  of timestamps (in milliseconds) \<^verbatim>\<open>datetime.fromtimestamp\<close> accepts on the platform, the
  naive local time it returns for one (a number on the wall clock of the platform's time
  zone, so two instants may share one), and the outcome of a request, which may depend on
  the requests made before.
  \<^verbatim>\<open>VERIFY_TOKEN\<close> is \<^verbatim>\<open>os.environ.get("VERIFY_TOKEN")\<close>, so it may be \<^verbatim>\<open>None\<close>;
  \<^verbatim>\<open>REEL_KEYWORDS\<close> is whatever \<^verbatim>\<open>json.load\<close> returned.
\<close>

record env =
  VERIFY_TOKEN :: "string option"
  INSTAGRAM_ACCOUNTS_CONFIG :: "account_config list"
  REEL_KEYWORDS :: json
  fromtimestamp_ok :: "int \<Rightarrow> bool"
  localtime :: "int \<Rightarrow> int"
  http_post :: "outbound list \<Rightarrow> outbound \<Rightarrow> http_outcome"

section \<open>The database\<close>

text \<open>
  A \<^verbatim>\<open>DateTime\<close> value is naive: either the local time \<^verbatim>\<open>datetime.fromtimestamp\<close> returned
  for the timestamp of the event, or the \<^verbatim>\<open>datetime.utcnow\<close> default of the column. The
  clock is not part of the model: a reading of it is one value \<open>UtcNow\<close>, taken to differ
  from the time of every event.
\<close>

datatype datetime = FromTimestamp int | UtcNow

record user =
  u_id :: nat
  u_psid :: "string option"
  u_instagram_id :: "string option"
  u_instagram_username :: "string option"
  u_created_at :: datetime
  u_last_interaction_at :: datetime
  u_conversation_state :: string

record message =
  m_id :: nat
  m_user_id :: "nat option"
  m_message_type :: string
  m_message_text :: "string option"
  m_timestamp :: datetime
  m_raw_payload :: json

record comment =
  c_id :: nat
  c_user_id :: "nat option"
  c_comment_id :: string
  c_media_id :: string
  c_comment_text :: "string option"
  c_timestamp :: datetime
  c_raw_payload :: json

text \<open>
  The three tables in row order, and the requests handed to \<^verbatim>\<open>requests.post\<close> so far.
  \<^verbatim>\<open>raw_payload\<close> holds the value \<^verbatim>\<open>json.dumps\<close> serialised.
\<close>

record state =
  users :: "user list"
  messages :: "message list"
  comments :: "comment list"
  requests :: "outbound list"

text \<open>A computation reads and writes the state and returns a value or raises.\<close>

type_synonym 'a prog = "state \<Rightarrow> (error + 'a) \<times> state"

definition ret :: "'a \<Rightarrow> 'a prog" where
  "ret x = (\<lambda>s. (Inr x, s))"

definition raise :: "error \<Rightarrow> 'a prog" where
  "raise e = (\<lambda>s. (Inl e, s))"

definition lift :: "error + 'a \<Rightarrow> 'a prog" where
  "lift r = (\<lambda>s. (r, s))"

definition and_then :: "'a prog \<Rightarrow> ('a \<Rightarrow> 'b prog) \<Rightarrow> 'b prog" where
  "and_then m f = (\<lambda>s. case m s of (Inl e, s') \<Rightarrow> (Inl e, s') | (Inr x, s') \<Rightarrow> f x s')"

text \<open>The same for an expression that touches no state.\<close>

definition bind_err :: "error + 'a \<Rightarrow> ('a \<Rightarrow> error + 'b) \<Rightarrow> error + 'b" where
  "bind_err r f = (case r of Inl e \<Rightarrow> Inl e | Inr x \<Rightarrow> f x)"

text \<open>A \<^verbatim>\<open>for\<close> loop whose body may raise.\<close>

fun for_each :: "('a \<Rightarrow> unit prog) \<Rightarrow> 'a list \<Rightarrow> unit prog" where
  "for_each body [] = ret ()"
| "for_each body (x # xs) = and_then (body x) (\<lambda>_. for_each body xs)"

text \<open>
  A Python value bound to a \<^verbatim>\<open>String\<close> or \<^verbatim>\<open>Text\<close> column, in a query or at a commit:
  \<^verbatim>\<open>None\<close> is NULL; an integer that fits 64 bits is bound as an integer and SQLite's TEXT
  affinity makes it its decimal text (\<^verbatim>\<open>True\<close> is 1), while for any other integer
  \<^verbatim>\<open>sqlite3\<close> raises \<^verbatim>\<open>OverflowError\<close>; the driver refuses a list or a dictionary.
\<close>

fun bind_text :: "json \<Rightarrow> error + string option" where
  "bind_text JNull = Inr None"
| "bind_text (JStr s) = Inr (Some s)"
| "bind_text (JInt n) =
     (if - 9223372036854775808 \<le> n \<and> n \<le> 9223372036854775807
      then Inr (Some (string_of_int n)) else Inl OverflowError)"
| "bind_text (JBool b) = Inr (Some (if b then ''1'' else ''0''))"
| "bind_text _ = Inl DBAPIError"

text \<open>The integer primary key of a new row: one more than the largest in the table.\<close>

definition next_id :: "nat list \<Rightarrow> nat" where
  "next_id ids = Suc (fold max ids 0)"

text \<open>A \<^verbatim>\<open>unique=True\<close> column admits a value that is NULL or in no row yet.\<close>

definition unique_ok :: "string option \<Rightarrow> string option list \<Rightarrow> bool" where
  "unique_ok v col = (v = None \<or> v \<notin> set col)"

text \<open>\<^verbatim>\<open>User.query.filter_by(psid=v).first()\<close>; \<^verbatim>\<open>filter_by(psid=None)\<close> is \<^verbatim>\<open>psid IS NULL\<close>.\<close>

definition query_user_by_psid :: "json \<Rightarrow> user option prog" where
  "query_user_by_psid v =
     and_then (lift (bind_text v)) (\<lambda>p s. (Inr (find (\<lambda>u. u_psid u = p) (users s)), s))"

definition query_user_by_instagram_id :: "json \<Rightarrow> user option prog" where
  "query_user_by_instagram_id v =
     and_then (lift (bind_text v))
       (\<lambda>i s. (Inr (find (\<lambda>u. u_instagram_id u = i) (users s)), s))"

text \<open>
  \<^verbatim>\<open>db.session.add(User(...)); db.session.commit()\<close>: \<^verbatim>\<open>last_interaction_at\<close> and
  \<^verbatim>\<open>conversation_state\<close> take their defaults.
\<close>

definition add_user :: "json \<Rightarrow> json \<Rightarrow> json \<Rightarrow> datetime \<Rightarrow> user prog" where
  "add_user psid instagram_id instagram_username created_at =
     and_then (lift (bind_text psid)) (\<lambda>p.
     and_then (lift (bind_text instagram_id)) (\<lambda>i.
     and_then (lift (bind_text instagram_username)) (\<lambda>n s.
       if unique_ok p (map u_psid (users s)) \<and> unique_ok i (map u_instagram_id (users s))
       then
         (let u = \<lparr>u_id = next_id (map u_id (users s)), u_psid = p, u_instagram_id = i,
                   u_instagram_username = n, u_created_at = created_at,
                   u_last_interaction_at = UtcNow, u_conversation_state = ''idle''\<rparr>
          in (Inr u, s\<lparr>users := users s @ [u]\<rparr>))
       else (Inl IntegrityError, s))))"

text \<open>Committing changed attributes of the user row with primary key \<open>uid\<close>.\<close>

definition update_user :: "nat \<Rightarrow> (user \<Rightarrow> user) \<Rightarrow> unit prog" where
  "update_user uid f =
     (\<lambda>s. (Inr (), s\<lparr>users := map (\<lambda>u. if u_id u = uid then f u else u) (users s)\<rparr>))"

text \<open>\<^verbatim>\<open>db.session.add(Message(...)); db.session.commit()\<close>.\<close>

definition add_message ::
  "nat option \<Rightarrow> string \<Rightarrow> json \<Rightarrow> datetime \<Rightarrow> json \<Rightarrow> unit prog" where
  "add_message user_id message_type message_text timestamp raw_payload =
     and_then (lift (bind_text message_text)) (\<lambda>t s.
       (Inr (), s\<lparr>messages := messages s @
          [\<lparr>m_id = next_id (map m_id (messages s)), m_user_id = user_id,
            m_message_type = message_type, m_message_text = t, m_timestamp = timestamp,
            m_raw_payload = raw_payload\<rparr>]\<rparr>))"

text \<open>
  \<^verbatim>\<open>db.session.add(Comment(...)); db.session.commit()\<close>: \<^verbatim>\<open>comment_id\<close> is
  \<^verbatim>\<open>unique=True, nullable=False\<close>, \<^verbatim>\<open>media_id\<close> is \<^verbatim>\<open>nullable=False\<close>.
\<close>

definition add_comment ::
  "nat option \<Rightarrow> json \<Rightarrow> json \<Rightarrow> json \<Rightarrow> datetime \<Rightarrow> json \<Rightarrow> unit prog" where
  "add_comment user_id comment_id media_id comment_text timestamp raw_payload =
     and_then (lift (bind_text comment_id)) (\<lambda>c.
     and_then (lift (bind_text media_id)) (\<lambda>m.
     and_then (lift (bind_text comment_text)) (\<lambda>t s.
       case (c, m) of
         (Some cid, Some mid) \<Rightarrow>
           if Some cid \<in> set (map (\<lambda>r. Some (c_comment_id r)) (comments s))
           then (Inl IntegrityError, s)
           else (Inr (), s\<lparr>comments := comments s @
                  [\<lparr>c_id = next_id (map c_id (comments s)), c_user_id = user_id,
                    c_comment_id = cid, c_media_id = mid, c_comment_text = t,
                    c_timestamp = timestamp, c_raw_payload = raw_payload\<rparr>]\<rparr>)
       | _ \<Rightarrow> (Inl IntegrityError, s))))"

text \<open>\<^verbatim>\<open>datetime.fromtimestamp(v / 1000)\<close>.\<close>

definition fromtimestamp :: "env \<Rightarrow> json \<Rightarrow> error + datetime" where
  "fromtimestamp e v =
     bind_err (py_number v) (\<lambda>ms.
       if fromtimestamp_ok e ms then Inr (FromTimestamp (localtime e ms))
       else Inl DatetimeRangeError)"

section \<open>Sending\<close>

text \<open>\<^verbatim>\<open>requests.post(url, headers=headers, params=params, json=data)\<close>.\<close>

definition post :: "env \<Rightarrow> outbound \<Rightarrow> http_outcome prog" where
  "post e req = (\<lambda>s. (Inr (http_post e (requests s) req), s\<lparr>requests := requests s @ [req]\<rparr>))"

text \<open>
  \<^verbatim>\<open>send_instagram_message\<close>. On success the outbound message is logged for the user with
  that PSID, if there is one. The handler of \<^verbatim>\<open>RequestException\<close> reads the local
  \<^verbatim>\<open>response\<close>, which is unbound when \<^verbatim>\<open>requests.post\<close> itself raised.
\<close>

definition send_instagram_message ::
  "env \<Rightarrow> json \<Rightarrow> string \<Rightarrow> string \<Rightarrow> string \<Rightarrow> unit prog" where
  "send_instagram_message e recipient_psid message_text page_id_for_sending access_token_for_sending =
     and_then
       (post e (DirectMessage page_id_for_sending access_token_for_sending recipient_psid message_text))
       (\<lambda>outcome. case outcome of
          Success \<Rightarrow>
            and_then (query_user_by_psid recipient_psid) (\<lambda>user.
              case user of
                Some u \<Rightarrow>
                  add_message (Some (u_id u)) ''outbound_dm'' (JStr message_text) UtcNow
                    (JObj [(''recipient'', JObj [(''id'', recipient_psid)]),
                           (''message'', JObj [(''text'', JStr message_text)])])
              | None \<Rightarrow> ret ())
        | ErrorResponse \<Rightarrow> ret ()
        | NoResponse \<Rightarrow> raise UnboundLocalError)"

text \<open>\<^verbatim>\<open>send_instagram_private_reply_to_comment\<close>: the logged message has no user.\<close>

definition send_instagram_private_reply_to_comment ::
  "env \<Rightarrow> json \<Rightarrow> string \<Rightarrow> string \<Rightarrow> unit prog" where
  "send_instagram_private_reply_to_comment e comment_id message_text access_token_for_sending =
     and_then (post e (PrivateReply access_token_for_sending comment_id message_text))
       (\<lambda>outcome. case outcome of
          Success \<Rightarrow>
            add_message None ''private_reply_comment'' (JStr message_text) UtcNow
              (JObj [(''message'', JStr message_text)])
        | ErrorResponse \<Rightarrow> ret ()
        | NoResponse \<Rightarrow> raise UnboundLocalError)"

text \<open>\<^verbatim>\<open>check_if_user_follows_page\<close>: a placeholder that returns \<^verbatim>\<open>True\<close>.\<close>

definition check_if_user_follows_page :: "json \<Rightarrow> string \<Rightarrow> bool" where
  "check_if_user_follows_page instagram_user_id access_token = True"

section \<open>Webhook verification\<close>

datatype body = Text string | Json json

type_synonym response = "body \<times> nat"

text \<open>
  \<^verbatim>\<open>verify_webhook\<close>, on the three values of \<^verbatim>\<open>request.args.get\<close>: \<^verbatim>\<open>None\<close> for a parameter
  that is not in the query string. \<^verbatim>\<open>all([mode, token, challenge])\<close> wants each of them
  to be a non-empty string.
\<close>

definition arg_truthy :: "string option \<Rightarrow> bool" where
  "arg_truthy a = (case a of None \<Rightarrow> False | Some v \<Rightarrow> v \<noteq> [])"

definition verify_webhook ::
  "env \<Rightarrow> string option \<Rightarrow> string option \<Rightarrow> string option \<Rightarrow> response" where
  "verify_webhook e mode token challenge =
     (if \<not> (arg_truthy mode \<and> arg_truthy token \<and> arg_truthy challenge)
      then (Text ''Missing parameters'', 400)
      else if mode = Some ''subscribe'' \<and> token = VERIFY_TOKEN e
      then (case challenge of Some c \<Rightarrow> (Text c, 200) | None \<Rightarrow> (Text ''Missing parameters'', 400))
      else (Text ''Verification token mismatch'', 403))"

section \<open>Comments\<close>

text \<open>
  The loop over the keywords of the default rule:
  \<^verbatim>\<open>for keyword in ...: if keyword.lower() in comment_text_lower: ...; break\<close>.
  The result says whether the loop left through \<^verbatim>\<open>break\<close>.
\<close>

fun scan_keywords :: "json list \<Rightarrow> string \<Rightarrow> error + bool" where
  "scan_keywords [] comment_text_lower = Inr False"
| "scan_keywords (keyword # keywords) comment_text_lower =
     bind_err (py_lower keyword) (\<lambda>k.
       if py_in k comment_text_lower then Inr True
       else scan_keywords keywords comment_text_lower)"

text \<open>
  The value of \<^verbatim>\<open>matched_reel_config\<close> when the \<^verbatim>\<open>if matched_reel_config and ...\<close> is
  reached: \<^verbatim>\<open>REEL_KEYWORDS.get(media_id)\<close>, and only if that is falsy, the default rule
  when one of its keywords is in the comment.
\<close>

definition match_reel_config :: "json \<Rightarrow> json \<Rightarrow> string \<Rightarrow> error + json" where
  "match_reel_config reel_keywords media_id comment_text_lower =
     bind_err (py_get_key reel_keywords media_id) (\<lambda>matched_reel_config.
       if \<not> truthy matched_reel_config then
         bind_err (py_get_default reel_keywords ''DEFAULT_KEYWORDS'' (JObj []))
           (\<lambda>default_keywords_config.
         bind_err (py_get_default default_keywords_config ''keywords'' (JArr [])) (\<lambda>keywords.
         bind_err (py_iter keywords) (\<lambda>ks.
         bind_err (scan_keywords ks comment_text_lower) (\<lambda>found.
           Inr (if found then default_keywords_config else matched_reel_config)))))
       else Inr matched_reel_config)"

text \<open>
  \<^verbatim>\<open>dm_message.replace("{username}", sender_username)\<close>: the method is looked up on the
  template first, then the call checks that its argument is a string.
\<close>

definition replace_username :: "json \<Rightarrow> json \<Rightarrow> error + string" where
  "replace_username dm_message sender_username =
     (case dm_message of
        JStr t \<Rightarrow>
          (case sender_username of
             JStr u \<Rightarrow> Inr (py_replace t ''{username}'' u)
           | _ \<Rightarrow> Inl TypeError)
      | _ \<Rightarrow> Inl AttributeError)"

definition non_follower_dm_message :: "json \<Rightarrow> string" where
  "non_follower_dm_message sender_username =
     ''Hi @'' @ py_str sender_username @
     '', thanks for your comment! To get the link, please follow our page first. '' @
     ''Once you follow, comment again or send us a DM, and we'' @ [CHR 0x27] @
     ''ll send it right over!''"

text \<open>The two branches of \<^verbatim>\<open>if is_follower\<close>.\<close>

definition reply_to_comment ::
  "env \<Rightarrow> bool \<Rightarrow> json \<Rightarrow> json \<Rightarrow> json \<Rightarrow> string \<Rightarrow> unit prog" where
  "reply_to_comment e is_follower matched_reel_config comment_id sender_username token =
     (if is_follower then
        and_then (lift (py_getitem matched_reel_config ''private_reply_message'')) (\<lambda>dm_message.
        and_then (lift (replace_username dm_message sender_username)) (\<lambda>dm_message.
          send_instagram_private_reply_to_comment e comment_id dm_message token))
      else
        send_instagram_private_reply_to_comment e comment_id
          (non_follower_dm_message sender_username) token)"

text \<open>The automation after the comment is stored, from \<^verbatim>\<open>comment_text.lower()\<close> on.\<close>

definition automate_reply ::
  "env \<Rightarrow> json \<Rightarrow> json \<Rightarrow> json \<Rightarrow> json \<Rightarrow> json \<Rightarrow> string \<Rightarrow> unit prog" where
  "automate_reply e comment_id comment_text media_id sender_ig_id sender_username token =
     and_then (lift (py_lower comment_text)) (\<lambda>comment_text_lower.
     and_then (lift (match_reel_config (REEL_KEYWORDS e) media_id comment_text_lower))
       (\<lambda>matched_reel_config.
       if \<not> truthy matched_reel_config then ret ()
       else
         and_then (lift (py_get matched_reel_config ''private_reply_message'')) (\<lambda>template.
           if truthy template then
             reply_to_comment e (check_if_user_follows_page sender_ig_id token)
               matched_reel_config comment_id sender_username token
           else ret ())))"

text \<open>
  Whether \<^verbatim>\<open>user.instagram_username != sender_username\<close>: the stored name is \<^verbatim>\<open>None\<close> or a
  string.
\<close>

definition username_differs :: "string option \<Rightarrow> json \<Rightarrow> bool" where
  "username_differs stored sender_username =
     (case stored of None \<Rightarrow> sender_username \<noteq> JNull | Some n \<Rightarrow> sender_username \<noteq> JStr n)"

text \<open>
  The \<^verbatim>\<open>else\<close> branch of the find-or-create of a commenter. The UPDATE sets the
  attributes whose value changed; \<^verbatim>\<open>last_interaction_at\<close> has
  \<^verbatim>\<open>onupdate=datetime.utcnow\<close>, which fills it when an UPDATE is sent that does not set it.
\<close>

definition touch_commenter :: "user \<Rightarrow> json \<Rightarrow> datetime \<Rightarrow> user prog" where
  "touch_commenter u sender_username comment_timestamp =
     (if username_differs (u_instagram_username u) sender_username then
        and_then (lift (bind_text sender_username)) (\<lambda>n.
          (let u' = u\<lparr>u_instagram_username := n,
                       u_last_interaction_at :=
                         (if u_last_interaction_at u = comment_timestamp then UtcNow
                          else comment_timestamp)\<rparr>
           in and_then (update_user (u_id u) (\<lambda>_. u')) (\<lambda>_. ret u')))
      else
        (let u' = u\<lparr>u_last_interaction_at := comment_timestamp\<rparr>
         in and_then (update_user (u_id u) (\<lambda>_. u')) (\<lambda>_. ret u')))"

text \<open>A change with \<^verbatim>\<open>field == "comments"\<close> and a truthy \<^verbatim>\<open>value\<close>.\<close>

definition process_comment :: "env \<Rightarrow> string \<Rightarrow> json \<Rightarrow> json \<Rightarrow> unit prog" where
  "process_comment e token change val =
     and_then (lift (py_get val ''id'')) (\<lambda>comment_id.
     and_then (lift (py_get val ''text'')) (\<lambda>comment_text.
     and_then (lift (bind_err (py_get_default val ''media'' (JObj [])) (\<lambda>m. py_get m ''id'')))
       (\<lambda>media_id.
     and_then (lift (bind_err (py_get_default val ''media'' (JObj []))
                       (\<lambda>m. py_get m ''media_type''))) (\<lambda>media_type.
     and_then (lift (bind_err (py_get_default val ''from'' (JObj [])) (\<lambda>f. py_get f ''id'')))
       (\<lambda>sender_ig_id.
     and_then (lift (bind_err (py_get_default val ''from'' (JObj []))
                       (\<lambda>f. py_get f ''username''))) (\<lambda>sender_username.
     and_then (lift (bind_err (py_get val ''created_time'') (fromtimestamp e)))
       (\<lambda>comment_timestamp.
       if truthy comment_id \<and> truthy comment_text \<and> truthy sender_ig_id \<and> truthy media_id
       then
         and_then (query_user_by_instagram_id sender_ig_id) (\<lambda>found.
         and_then
           (case found of
              None \<Rightarrow> add_user JNull sender_ig_id sender_username comment_timestamp
            | Some u \<Rightarrow> touch_commenter u sender_username comment_timestamp) (\<lambda>user.
         and_then
           (add_comment (Some (u_id user)) comment_id media_id comment_text comment_timestamp
              change) (\<lambda>_.
           automate_reply e comment_id comment_text media_id sender_ig_id sender_username
             token)))
       else ret ())))))))"

text \<open>A change with \<^verbatim>\<open>field == "mentions"\<close> and a truthy \<^verbatim>\<open>value\<close>: nothing but reads.\<close>

definition process_mention :: "json \<Rightarrow> error + unit" where
  "process_mention val =
     bind_err (py_get val ''item'') (\<lambda>item.
       if \<not> truthy item then Inr ()
       else
         bind_err (py_get item ''media_type'') (\<lambda>media_type.
           if media_type = JStr ''STORY'' then
             bind_err (py_getitem item ''id'') (\<lambda>story_id.
             bind_err (bind_err (py_getitem val ''user'') (\<lambda>u. py_getitem u ''id''))
               (\<lambda>sender_ig_id.
             bind_err (bind_err (py_getitem val ''user'') (\<lambda>u. py_getitem u ''username''))
               (\<lambda>sender_username. Inr ())))
           else if media_type = JStr ''IMAGE'' \<or> media_type = JStr ''VIDEO'' then
             bind_err (py_get item ''id'') (\<lambda>comment_id.
             bind_err (py_get val ''text'') (\<lambda>comment_text.
             bind_err (bind_err (py_getitem val ''user'') (\<lambda>u. py_getitem u ''id''))
               (\<lambda>sender_ig_id.
             bind_err (bind_err (py_getitem val ''user'') (\<lambda>u. py_getitem u ''username''))
               (\<lambda>sender_username. Inr ()))))
           else Inr ()))"

text \<open>The body of \<^verbatim>\<open>for change in entry["changes"]\<close>.\<close>

definition process_change :: "env \<Rightarrow> string \<Rightarrow> json \<Rightarrow> unit prog" where
  "process_change e token change =
     and_then (lift (py_get change ''field'')) (\<lambda>field.
     and_then (lift (py_get change ''value'')) (\<lambda>val.
       if field = JStr ''comments'' \<and> truthy val then process_comment e token change val
       else if field = JStr ''mentions'' \<and> truthy val then lift (process_mention val)
       else ret ()))"

section \<open>Direct messages and postbacks\<close>

text \<open>
  The condition of the first branch:
  \<^verbatim>\<open>messaging_event.get("message") and messaging_event["message"].get("text") and
  messaging_event["message"].get("is_echo") is not True\<close>.
\<close>

definition is_inbound_text :: "json \<Rightarrow> error + bool" where
  "is_inbound_text messaging_event =
     bind_err (py_get messaging_event ''message'') (\<lambda>msg.
       if \<not> truthy msg then Inr False
       else
         bind_err (py_get msg ''text'') (\<lambda>text.
           if \<not> truthy text then Inr False
           else bind_err (py_get msg ''is_echo'') (\<lambda>is_echo. Inr (is_echo \<noteq> JBool True))))"

text \<open>The reply to a direct message; \<^verbatim>\<open>user.instagram_username or 'friend'\<close>.\<close>

definition or_friend :: "string option \<Rightarrow> string" where
  "or_friend instagram_username =
     (case instagram_username of None \<Rightarrow> ''friend'' | Some n \<Rightarrow> if n = [] then ''friend'' else n)"

definition response_message :: "string \<Rightarrow> string option \<Rightarrow> string" where
  "response_message message_text_lower instagram_username =
     (if py_in ''hello'' message_text_lower \<or> py_in ''hi'' message_text_lower
      then ''Hi there, '' @ or_friend instagram_username @ ''! How can I help you today?''
      else if py_in ''help'' message_text_lower
      then ''I can help with common questions. Try asking about '' @ [CHR 0x27] @ ''products''
           @ [CHR 0x27] @ '' or '' @ [CHR 0x27] @ ''support'' @ [CHR 0x27] @ ''.''
      else if py_in ''products'' message_text_lower
      then ''We offer a range of exciting products! Visit our website to learn more: example.com''
      else ''I'' @ [CHR 0x27] @ ''m a bot! I'' @ [CHR 0x27] @ ''m still learning. Try ''
           @ [CHR 0x27] @ ''hello'' @ [CHR 0x27] @ '', '' @ [CHR 0x27] @ ''help'' @ [CHR 0x27]
           @ '', or '' @ [CHR 0x27] @ ''products'' @ [CHR 0x27] @ ''.'')"

text \<open>An inbound text message: find or create the user, log the message, answer.\<close>

definition handle_direct_message ::
  "env \<Rightarrow> string \<Rightarrow> string \<Rightarrow> json \<Rightarrow> json \<Rightarrow> unit prog" where
  "handle_direct_message e recipient_page_id token messaging_event sender_psid =
     and_then (lift (bind_err (py_getitem messaging_event ''message'')
                       (\<lambda>m. py_getitem m ''text''))) (\<lambda>message_text.
     and_then (lift (bind_err (py_getitem messaging_event ''timestamp'') (fromtimestamp e)))
       (\<lambda>message_timestamp.
     and_then (query_user_by_psid sender_psid) (\<lambda>found.
     and_then
       (case found of
          None \<Rightarrow> add_user sender_psid JNull JNull message_timestamp
        | Some u \<Rightarrow>
            (let u' = u\<lparr>u_last_interaction_at := message_timestamp\<rparr>
             in and_then (update_user (u_id u) (\<lambda>_. u')) (\<lambda>_. ret u'))) (\<lambda>user.
     and_then
       (add_message (Some (u_id user)) ''inbound_dm'' message_text message_timestamp
          messaging_event) (\<lambda>_.
     and_then (lift (py_lower message_text)) (\<lambda>message_text_lower.
       send_instagram_message e sender_psid
         (response_message message_text_lower (u_instagram_username user))
         recipient_page_id token))))))"

text \<open>A postback: the user is looked up but not created.\<close>

definition handle_postback ::
  "env \<Rightarrow> string \<Rightarrow> string \<Rightarrow> json \<Rightarrow> json \<Rightarrow> unit prog" where
  "handle_postback e recipient_page_id token messaging_event sender_psid =
     and_then (lift (bind_err (py_getitem messaging_event ''postback'')
                       (\<lambda>p. py_getitem p ''payload''))) (\<lambda>payload.
     and_then (lift (bind_err (py_getitem messaging_event ''timestamp'') (fromtimestamp e)))
       (\<lambda>message_timestamp.
     and_then (query_user_by_psid sender_psid) (\<lambda>found.
     and_then
       (case found of
          Some u \<Rightarrow> update_user (u_id u) (\<lambda>_. u\<lparr>u_last_interaction_at := message_timestamp\<rparr>)
        | None \<Rightarrow> ret ()) (\<lambda>_.
     and_then
       (add_message (map_option u_id found) ''inbound_postback''
          (JStr (''POSTBACK: '' @ py_str payload)) message_timestamp messaging_event) (\<lambda>_.
       send_instagram_message e sender_psid
         (''You chose: '' @ py_str payload @ ''. How else can I assist?'')
         recipient_page_id token)))))"

text \<open>The body of \<^verbatim>\<open>for messaging_event in entry["messaging"]\<close>.\<close>

definition process_messaging_event :: "env \<Rightarrow> string \<Rightarrow> string \<Rightarrow> json \<Rightarrow> unit prog" where
  "process_messaging_event e recipient_page_id token messaging_event =
     and_then (lift (bind_err (py_getitem messaging_event ''sender'') (\<lambda>s. py_getitem s ''id'')))
       (\<lambda>sender_psid.
     and_then (lift (is_inbound_text messaging_event)) (\<lambda>inbound.
       if inbound
       then handle_direct_message e recipient_page_id token messaging_event sender_psid
       else
         and_then (lift (py_get messaging_event ''postback'')) (\<lambda>postback.
           if truthy postback
           then handle_postback e recipient_page_id token messaging_event sender_psid
           else ret ())))"

section \<open>The event handler\<close>

text \<open>
  \<^verbatim>\<open>recipient_page_id\<close> of an entry: \<^verbatim>\<open>str(entry["id"])\<close>, else the recipient of the first
  messaging event, else the \<^verbatim>\<open>page_id\<close> in the value of the first change; \<^verbatim>\<open>None\<close> when
  no branch assigns it.
\<close>

definition recipient_page_id_of :: "json \<Rightarrow> error + string option" where
  "recipient_page_id_of entry =
     bind_err (py_get entry ''id'') (\<lambda>entry_id.
       if truthy entry_id then Inr (Some (py_str entry_id))
       else
         bind_err (py_get entry ''messaging'') (\<lambda>messaging.
           if truthy messaging then
             bind_err (bind_err (py_first messaging) (\<lambda>m. py_get m ''recipient''))
               (\<lambda>recipient.
               if truthy recipient
               then bind_err (py_getitem recipient ''id'') (\<lambda>i. Inr (Some (py_str i)))
               else Inr None)
           else
             bind_err (py_get entry ''changes'') (\<lambda>changes.
               if truthy changes then
                 bind_err (bind_err (py_first changes) (\<lambda>c. py_get c ''value'')) (\<lambda>val.
                   if truthy val then
                     bind_err (py_get val ''page_id'') (\<lambda>p.
                       if truthy p then Inr (Some (py_str p)) else Inr None)
                   else Inr None)
               else Inr None)))"

text \<open>
  The account of an entry: \<^verbatim>\<open>None\<close> where the source says \<^verbatim>\<open>continue\<close>, because
  \<^verbatim>\<open>recipient_page_id\<close> is falsy or no configured account has that page id.
\<close>

definition current_page_config_of :: "env \<Rightarrow> json \<Rightarrow> error + account_config option" where
  "current_page_config_of e entry =
     bind_err (recipient_page_id_of entry) (\<lambda>recipient_page_id.
       case recipient_page_id of
         None \<Rightarrow> Inr None
       | Some r \<Rightarrow>
           if r = [] then Inr None
           else Inr (find (\<lambda>account_config. page_id account_config = r)
                       (INSTAGRAM_ACCOUNTS_CONFIG e)))"

text \<open>The body of \<^verbatim>\<open>for entry in data["entry"]\<close>.\<close>

definition process_entry :: "env \<Rightarrow> json \<Rightarrow> unit prog" where
  "process_entry e entry =
     and_then (lift (current_page_config_of e entry)) (\<lambda>current_page_config.
       case current_page_config of
         None \<Rightarrow> ret ()
       | Some account \<Rightarrow>
           and_then (lift (py_get entry ''messaging'')) (\<lambda>messaging.
             if truthy messaging then
               and_then (lift (py_iter messaging))
                 (for_each (process_messaging_event e (page_id account)
                    (page_access_token account)))
             else
               and_then (lift (py_get entry ''changes'')) (\<lambda>changes.
                 if truthy changes then
                   and_then (lift (py_iter changes))
                     (for_each (process_change e (page_access_token account)))
                 else ret ())))"

definition ok_response :: response where
  "ok_response = (Json (JObj [(''status'', JStr ''ok'')]), 200)"

definition invalid_response :: response where
  "invalid_response =
     (Json (JObj [(''status'', JStr ''error''), (''message'', JStr ''Invalid webhook data'')]), 400)"

text \<open>
  \<^verbatim>\<open>handle_webhook\<close> on the value of \<^verbatim>\<open>request.json\<close>. \<open>Inl\<close> is an exception that leaves
  the view function; the state beside it holds what was committed before.
\<close>

definition handle_webhook :: "env \<Rightarrow> json \<Rightarrow> response prog" where
  "handle_webhook e data =
     (if \<not> truthy data then ret invalid_response
      else
        and_then (lift (py_get data ''entry'')) (\<lambda>entry.
          if \<not> truthy entry then ret invalid_response
          else
            and_then (lift (py_iter entry)) (\<lambda>entries.
            and_then (for_each (process_entry e) entries) (\<lambda>_. ret ok_response))))"

section \<open>Notions used in the statements\<close>

text \<open>A read of a field that gave no truthy value: it raised, or the value is falsy
  (\<^verbatim>\<open>None\<close> for a key that is not there).\<close>

definition absent :: "error + json \<Rightarrow> bool" where
  "absent r = (case r of Inl e \<Rightarrow> True | Inr v \<Rightarrow> \<not> truthy v)"




text \<open>Every message row with a user id refers to a row of the User table.\<close>

definition message_users_exist :: "state \<Rightarrow> bool" where
  "message_users_exist s =
     list_all (\<lambda>m. case m_user_id m of None \<Rightarrow> True | Some i \<Rightarrow> i \<in> set (map u_id (users s)))
       (messages s)"

text \<open>
  The value of a \<^verbatim>\<open>comments\<close> change whose comment id, text, media id and commenter id are
  non-empty strings, whose username can be stored (a string, \<^verbatim>\<open>None\<close>, or a number that fits
  64 bits) and whose \<^verbatim>\<open>created_time\<close> converts.
\<close>

definition comment_with_fields ::
  "env \<Rightarrow> json \<Rightarrow> string \<Rightarrow> string \<Rightarrow> string \<Rightarrow> string \<Rightarrow> json \<Rightarrow> bool" where
  "comment_with_fields e val cid text mid uid un =
     (py_get val ''id'' = Inr (JStr cid) \<and> cid \<noteq> []
      \<and> py_get val ''text'' = Inr (JStr text) \<and> text \<noteq> []
      \<and> bind_err (py_get_default val ''media'' (JObj [])) (\<lambda>m. py_get m ''id'') = Inr (JStr mid)
      \<and> mid \<noteq> []
      \<and> bind_err (py_get_default val ''from'' (JObj [])) (\<lambda>f. py_get f ''id'') = Inr (JStr uid)
      \<and> uid \<noteq> []
      \<and> bind_err (py_get_default val ''from'' (JObj [])) (\<lambda>f. py_get f ''username'') = Inr un
      \<and> (case bind_text un of Inr n \<Rightarrow> True | Inl err \<Rightarrow> False)
      \<and> (case bind_err (py_get val ''created_time'') (fromtimestamp e) of
            Inr ts \<Rightarrow> True
          | Inl err \<Rightarrow> False))"

text \<open>The comment rows with the comment id \<open>cid\<close>; and a state in which they are the
  rows \<open>rows\<close>, of which there is at least one.\<close>

definition rows_with_comment_id :: "string \<Rightarrow> state \<Rightarrow> comment list" where
  "rows_with_comment_id cid s = filter (\<lambda>r. c_comment_id r = cid) (comments s)"

definition keeps_rows :: "string \<Rightarrow> comment list \<Rightarrow> state \<Rightarrow> bool" where
  "keeps_rows cid rows s = (rows \<noteq> [] \<and> rows_with_comment_id cid s = rows)"

section \<open>A deployment for examples\<close>

text \<open>
  One configured account, a rule table with a full rule for the media \<open>M1\<close>, a rule without
  reply message for \<open>M2\<close> and the default rule; the time zone is UTC, every timestamp from
  1970 to 9999 is accepted, and every request to the Graph API succeeds.
\<close>

definition m1_rule :: "(string \<times> json) list" where
  "m1_rule = [(''keywords'', JArr [JStr ''price'']),
              (''private_reply_message'', JStr ''Hi {username}, here it is'')]"

definition m2_rule :: "(string \<times> json) list" where
  "m2_rule = [(''keywords'', JArr [JStr ''price''])]"

definition default_rule :: "(string \<times> json) list" where
  "default_rule = [(''keywords'', JArr [JStr ''link'', JStr ''info'']),
                   (''private_reply_message'', JStr ''The link: example.com'')]"

definition acme_rules :: "(string \<times> json) list" where
  "acme_rules = [(''M1'', JObj m1_rule), (''M2'', JObj m2_rule),
                 (''DEFAULT_KEYWORDS'', JObj default_rule)]"

definition acme_env :: env where
  "acme_env =
     \<lparr>VERIFY_TOKEN = Some ''s3cret'',
      INSTAGRAM_ACCOUNTS_CONFIG = [\<lparr>page_id = ''P1'', page_access_token = ''tok1''\<rparr>],
      REEL_KEYWORDS = JObj acme_rules,
      fromtimestamp_ok = (\<lambda>ms. 0 \<le> ms \<and> ms < 253402300800000),
      localtime = (\<lambda>ms. ms),
      http_post = (\<lambda>sent req. Success)\<rparr>"

definition empty_state :: state where
  "empty_state = \<lparr>users = [], messages = [], comments = [], requests = []\<rparr>"

text \<open>A comment by \<open>ann\<close> (Instagram id \<open>u1\<close>), as the value of a \<^verbatim>\<open>comments\<close> change.\<close>

definition comment_value :: "string \<Rightarrow> string \<Rightarrow> string \<Rightarrow> (string \<times> json) list" where
  "comment_value cid mid text =
     [(''id'', JStr cid), (''text'', JStr text),
      (''media'', JObj [(''id'', JStr mid), (''media_type'', JStr ''REELS'')]),
      (''from'', JObj [(''id'', JStr ''u1''), (''username'', JStr ''ann'')]),
      (''created_time'', JInt 1700000000000)]"

definition comment_change :: "string \<Rightarrow> string \<Rightarrow> string \<Rightarrow> json" where
  "comment_change cid mid text =
     JObj [(''field'', JStr ''comments''), (''value'', JObj (comment_value cid mid text))]"

text \<open>The same comment from a commenter whose \<^verbatim>\<open>from\<close> has no \<^verbatim>\<open>username\<close>.\<close>

definition anonymous_comment_change :: "string \<Rightarrow> string \<Rightarrow> string \<Rightarrow> json" where
  "anonymous_comment_change cid mid text =
     JObj [(''field'', JStr ''comments''),
           (''value'', JObj [(''id'', JStr cid), (''text'', JStr text),
              (''media'', JObj [(''id'', JStr mid)]),
              (''from'', JObj [(''id'', JStr ''u1'')]),
              (''created_time'', JInt 1700000000000)])]"

text \<open>A comment change that has neither \<^verbatim>\<open>media\<close> nor \<^verbatim>\<open>created_time\<close>.\<close>

definition bare_comment_change :: json where
  "bare_comment_change =
     JObj [(''field'', JStr ''comments''),
           (''value'', JObj [(''id'', JStr ''c0''), (''text'', JStr ''hello''),
              (''from'', JObj [(''id'', JStr ''u1''), (''username'', JStr ''ann'')])])]"

text \<open>A comment change without \<^verbatim>\<open>media\<close>, with its \<^verbatim>\<open>created_time\<close>.\<close>

definition no_media_comment_change :: json where
  "no_media_comment_change =
     JObj [(''field'', JStr ''comments''),
           (''value'', JObj [(''id'', JStr ''c0''), (''text'', JStr ''hello''),
              (''from'', JObj [(''id'', JStr ''u1''), (''username'', JStr ''ann'')]),
              (''created_time'', JInt 1700000000000)])]"

definition changes_entry :: "json list \<Rightarrow> json" where
  "changes_entry changes = JObj [(''id'', JStr ''P1''), (''changes'', JArr changes)]"

definition delivery :: "json list \<Rightarrow> json" where
  "delivery entries = JObj [(''object'', JStr ''instagram''), (''entry'', JArr entries)]"

text \<open>An inbound text message, and a messaging event without \<^verbatim>\<open>sender\<close>.\<close>

definition dm_event :: "string \<Rightarrow> string \<Rightarrow> json" where
  "dm_event psid text =
     JObj [(''sender'', JObj [(''id'', JStr psid)]),
           (''recipient'', JObj [(''id'', JStr ''P1'')]),
           (''timestamp'', JInt 1700000000000),
           (''message'', JObj [(''mid'', JStr ''m1''), (''text'', JStr text)])]"

definition senderless_event :: json where
  "senderless_event =
     JObj [(''recipient'', JObj [(''id'', JStr ''P1'')]),
           (''timestamp'', JInt 1700000000000),
           (''message'', JObj [(''text'', JStr ''hi'')])]"

definition messaging_entry :: "json list \<Rightarrow> json" where
  "messaging_entry events = JObj [(''messaging'', JArr events)]"

text \<open>An entry for a page that is not configured.\<close>

definition stranger_entry :: json where
  "stranger_entry =
     JObj [(''id'', JStr ''P9''), (''changes'', JArr [comment_change ''c9'' ''M1'' ''price?''])]"

text \<open>The state after the comment \<open>c1\<close> on \<open>M1\<close> has been delivered once.\<close>

definition after_first_delivery :: state where
  "after_first_delivery =
     snd (handle_webhook acme_env
            (delivery [changes_entry [comment_change ''c1'' ''M1'' ''Nice reel'']]) empty_state)"

text \<open>An entry whose first messaging event has a recipient without \<^verbatim>\<open>id\<close>.\<close>

definition idless_recipient_entry :: json where
  "idless_recipient_entry =
     JObj [(''messaging'', JArr [JObj [(''recipient'', JObj [(''name'', JStr ''page'')])]])]"

section \<open>Auxiliary facts\<close>

lemmas prog_defs = ret_def raise_def lift_def and_then_def bind_err_def

lemmas example_defs = acme_env_def acme_rules_def m1_rule_def m2_rule_def default_rule_def
  empty_state_def comment_value_def comment_change_def anonymous_comment_change_def
  bare_comment_change_def no_media_comment_change_def changes_entry_def delivery_def
  dm_event_def senderless_event_def messaging_entry_def stranger_entry_def
  idless_recipient_entry_def

text \<open>\<^verbatim>\<open>sub in s\<close> is the substring relation.\<close>

lemma startswith_iff: "startswith s p \<longleftrightarrow> (\<exists>suf. s = p @ suf)"
  by (induction s p rule: startswith.induct) auto

lemma py_in_iff: "py_in sub s \<longleftrightarrow> (\<exists>pre suf. s = pre @ sub @ suf)"
proof (induction s)
  case Nil
  then show ?case by auto
next
  case (Cons c cs)
  show ?case
  proof
    assume "py_in sub (c # cs)"
    then consider "startswith (c # cs) sub" | "py_in sub cs" by auto
    then show "\<exists>pre suf. c # cs = pre @ sub @ suf"
    proof cases
      case 1
      then obtain suf where "c # cs = sub @ suf" by (auto simp: startswith_iff)
      then have "c # cs = [] @ sub @ suf" by simp
      then show ?thesis by blast
    next
      case 2
      then obtain pre suf where "cs = pre @ sub @ suf" using Cons.IH by auto
      then have "c # cs = (c # pre) @ sub @ suf" by simp
      then show ?thesis by blast
    qed
  next
    assume "\<exists>pre suf. c # cs = pre @ sub @ suf"
    then obtain pre suf where eq: "c # cs = pre @ sub @ suf" by auto
    show "py_in sub (c # cs)"
    proof (cases pre)
      case Nil
      then have "startswith (c # cs) sub" using eq by (auto simp: startswith_iff)
      then show ?thesis by simp
    next
      case (Cons a pre')
      then have "cs = pre' @ sub @ suf" using eq by simp
      then have "py_in sub cs" using Cons.IH by blast
      then show ?thesis by simp
    qed
  qed
qed

lemma scan_keywords_strings:
  "scan_keywords (map JStr ks) l = Inr (\<exists>k \<in> set ks. py_in (lower k) l)"
  by (induction ks) (auto simp: bind_err_def)

lemma scan_keywords_stops:
  "py_in (lower k) l \<Longrightarrow> scan_keywords (map JStr ks @ JStr k # rest) l = Inr True"
  by (induction ks) (auto simp: bind_err_def)

text \<open>
  Rendering a template for a commenter whose name is a string is \<^verbatim>\<open>str.replace\<close>: a text
  without the placeholder stays as it is; otherwise the leftmost occurrence gives way to
  the name and the scan goes on behind it, so the name itself is never scanned.
\<close>

lemma py_replace_absent:
  "old \<noteq> [] \<Longrightarrow> \<not> py_in old s \<Longrightarrow> py_replace s old new = s"
  by (induction s) auto

lemma startswith_append: "startswith (p @ s) p"
  by (simp add: startswith_iff)

lemma py_replace_occurrence:
  "old \<noteq> [] \<Longrightarrow> \<not> py_in old (pre @ butlast old) \<Longrightarrow>
   py_replace (pre @ old @ rest) old new = pre @ new @ py_replace rest old new"
proof (induction pre)
  case Nil
  then obtain c cs where "old = c # cs" by (cases old) auto
  then show ?case using startswith_append [of old rest] by simp
next
  case (Cons a pre)
  have no: "\<not> startswith ((a # pre) @ old @ rest) old"
  proof
    assume "startswith ((a # pre) @ old @ rest) old"
    then obtain suf where e: "(a # pre) @ old @ rest = old @ suf" by (auto simp: startswith_iff)
    have "take (length old) ((a # pre) @ butlast old) = old"
    proof -
      have "take (length old) ((a # pre) @ old @ rest) = old" using e by simp
      moreover have "take (length old) ((a # pre) @ old @ rest) = take (length old) ((a # pre) @ butlast old)"
        using Cons.prems(1) by (cases old rule: rev_cases) auto
      ultimately show ?thesis by simp
    qed
    then have "(a # pre) @ butlast old = old @ drop (length old) ((a # pre) @ butlast old)"
      by (metis append_take_drop_id)
    then have "startswith ((a # pre) @ butlast old) old" by (metis startswith_iff)
    then have "py_in old ((a # pre) @ butlast old)" by simp
    then show False using Cons.prems by simp
  qed
  have "\<not> py_in old (pre @ butlast old)" using Cons.prems by auto
  then have "py_replace (pre @ old @ rest) old new = pre @ new @ py_replace rest old new"
    using Cons.IH Cons.prems(1) by simp
  then show ?case using no Cons.prems(1) by simp
qed

lemma requests_private_reply:
  "requests (snd (send_instagram_private_reply_to_comment e cid txt tok s)) =
   requests s @ [PrivateReply tok cid txt]"
  by (cases "http_post e (requests s) (PrivateReply tok cid txt)")
     (simp_all add: send_instagram_private_reply_to_comment_def post_def add_message_def prog_defs)

text \<open>Sequencing.\<close>

lemma and_then_lift:
  "and_then (lift r) f s = (case r of Inl e \<Rightarrow> (Inl e, s) | Inr x \<Rightarrow> f x s)"
  by (simp add: and_then_def lift_def split: sum.splits)

lemma and_then_lift_Inr: "and_then (lift (Inr x)) f = f x"
  by (simp add: and_then_def lift_def)

lemma and_then_raises: "m s = (Inl err, s') \<Longrightarrow> and_then m f s = (Inl err, s')"
  by (simp add: and_then_def)

lemma for_each_append:
  "for_each body (xs @ ys) s = and_then (for_each body xs) (\<lambda>_. for_each body ys) s"
  by (induction xs arbitrary: s) (auto simp: and_then_def ret_def split: sum.splits prod.splits)

lemmas model_defs = handle_webhook_def process_entry_def current_page_config_of_def
  recipient_page_id_of_def process_change_def process_comment_def process_mention_def
  automate_reply_def match_reel_config_def reply_to_comment_def replace_username_def
  fromtimestamp_def query_user_by_instagram_id_def query_user_by_psid_def add_user_def
  add_comment_def add_message_def update_user_def touch_commenter_def username_differs_def
  process_messaging_event_def is_inbound_text_def handle_direct_message_def handle_postback_def
  send_instagram_message_def send_instagram_private_reply_to_comment_def post_def
  check_if_user_follows_page_def response_message_def or_friend_def unique_ok_def next_id_def
  lower_def lower_char_def ok_response_def invalid_response_def Let_def prog_defs

lemma find_None_unique:
  "find (\<lambda>u. col u = Some v) rows = None \<Longrightarrow> unique_ok (Some v) (map col rows)"
  by (auto simp: unique_ok_def find_None_iff)

section \<open>Message rows refer to user rows\<close>

text \<open>
  SQLite does not enforce the foreign key of \<^verbatim>\<open>Message.user_id\<close>, but the handler keeps it:
  a message row is only ever written with the id of a user row that was just found or
  created, and user rows are never deleted. So the property holds in every state the
  handler reaches from an empty database.
\<close>

lemma find_member: "find P xs = Some x \<Longrightarrow> x \<in> set xs"
  by (induction xs) (auto split: if_splits)

lemma exist_grow:
  "message_users_exist s \<Longrightarrow> messages s' = messages s \<Longrightarrow>
   set (map u_id (users s)) \<subseteq> set (map u_id (users s')) \<Longrightarrow> message_users_exist s'"
  by (auto simp: message_users_exist_def list_all_iff split: option.splits)

lemma exist_add_message:
  "message_users_exist s \<Longrightarrow> (case uid of None \<Rightarrow> True | Some i \<Rightarrow> i \<in> set (map u_id (users s))) \<Longrightarrow>
   message_users_exist (snd (add_message uid ty txt ts pl s))"
  by (cases "bind_text txt")
     (auto simp: add_message_def and_then_lift message_users_exist_def list_all_iff split: option.splits)

lemma exist_send_dm:
  "message_users_exist s \<Longrightarrow> message_users_exist (snd (send_instagram_message e psid txt page tok s))"
proof -
  assume a: "message_users_exist s"
  let ?req = "DirectMessage page tok psid txt"
  let ?s1 = "s\<lparr>requests := requests s @ [?req]\<rparr>"
  have s1: "message_users_exist ?s1" using a by (rule exist_grow) simp_all
  show ?thesis
  proof (cases "http_post e (requests s) ?req")
    case Success
    show ?thesis
    proof (cases "bind_text psid")
      case (Inl err)
      then show ?thesis using Success s1
        by (simp add: send_instagram_message_def post_def query_user_by_psid_def prog_defs)
    next
      case (Inr p)
      show ?thesis
      proof (cases "find (\<lambda>u. u_psid u = p) (users s)")
        case None
        then show ?thesis using Success s1 Inr
          by (simp add: send_instagram_message_def post_def query_user_by_psid_def prog_defs)
      next
        case (Some u)
        then have "u_id u \<in> set (map u_id (users ?s1))" using find_member by fastforce
        then have "message_users_exist (snd (add_message (Some (u_id u)) ''outbound_dm'' (JStr txt) UtcNow
                    (JObj [(''recipient'', JObj [(''id'', psid)]), (''message'', JObj [(''text'', JStr txt)])]) ?s1))"
          using s1 by (intro exist_add_message) simp_all
        then show ?thesis using Success Inr Some
          by (simp add: send_instagram_message_def post_def query_user_by_psid_def prog_defs)
      qed
    qed
  next
    case ErrorResponse
    then show ?thesis using s1 by (simp add: send_instagram_message_def post_def prog_defs)
  next
    case NoResponse
    then show ?thesis using s1 by (simp add: send_instagram_message_def post_def prog_defs)
  qed
qed


lemma and_then_inv:
  assumes "\<And>x s'. m s = (Inr x, s') \<Longrightarrow> I (snd (f x s'))"
    and "\<And>err s'. m s = (Inl err, s') \<Longrightarrow> I s'"
  shows "I (snd (and_then m f s))"
proof (cases "m s")
  case (Pair r s')
  then show ?thesis using assms by (cases r) (auto simp: and_then_def)
qed

lemma lift_then_inv:
  assumes "\<And>x. r = Inr x \<Longrightarrow> I (snd (f x s))" and "I s"
  shows "I (snd (and_then (lift r) f s))"
  using assms by (cases r) (auto simp: and_then_def lift_def)

lemma for_each_inv:
  assumes "\<And>x s. I s \<Longrightarrow> I (snd (body x s))" and "I s"
  shows "I (snd (for_each body xs s))"
  using assms(2)
proof (induction xs arbitrary: s)
  case Nil
  then show ?case by (simp add: ret_def)
next
  case (Cons x xs)
  show ?case
  proof (simp, rule and_then_inv)
    fix u s' assume "body x s = (Inr u, s')"
    then have "I s'" using assms(1) [OF Cons.prems, of x] by simp
    then show "I (snd (for_each body xs s'))" by (rule Cons.IH)
  next
    fix err s' assume "body x s = (Inl err, s')"
    then show "I s'" using assms(1) [OF Cons.prems, of x] by simp
  qed
qed

lemma exist_send_private_reply:
  "message_users_exist s \<Longrightarrow>
   message_users_exist (snd (send_instagram_private_reply_to_comment e cid txt tok s))"
proof -
  assume a: "message_users_exist s"
  let ?req = "PrivateReply tok cid txt"
  let ?s1 = "s\<lparr>requests := requests s @ [?req]\<rparr>"
  have s1: "message_users_exist ?s1" using a by (rule exist_grow) simp_all
  then have "message_users_exist (snd (add_message None ''private_reply_comment'' (JStr txt) UtcNow
                    (JObj [(''message'', JStr txt)]) ?s1))"
    by (intro exist_add_message) simp_all
  then show ?thesis using s1
    by (cases "http_post e (requests s) ?req")
       (simp_all add: send_instagram_private_reply_to_comment_def post_def prog_defs)
qed

lemma exist_reply_to_comment:
  "message_users_exist s \<Longrightarrow>
   message_users_exist (snd (reply_to_comment e b matched cid un tok s))"
  by (simp add: reply_to_comment_def and_then_lift exist_send_private_reply split: sum.splits)

lemma exist_automate_reply:
  "message_users_exist s \<Longrightarrow>
   message_users_exist (snd (automate_reply e cid text mid sid un tok s))"
  by (simp add: automate_reply_def and_then_lift ret_def exist_reply_to_comment split: sum.splits)

lemma add_user_result:
  assumes "add_user a b c d s = (r, s')" and "message_users_exist s"
  shows "message_users_exist s' \<and> (\<forall>u. r = Inr u \<longrightarrow> u_id u \<in> set (map u_id (users s')))"
proof -
  have g: "message_users_exist (s\<lparr>users := users s @ [u]\<rparr>)" for u
    using assms(2) by (rule exist_grow) auto
  show ?thesis
  proof (cases "bind_text a")
    case (Inl err)
    then show ?thesis using assms by (auto simp: add_user_def and_then_lift)
  next
    case a: (Inr pa)
    show ?thesis
    proof (cases "bind_text b")
      case (Inl err)
      then show ?thesis using assms a by (auto simp: add_user_def and_then_lift)
    next
      case b: (Inr pb)
      show ?thesis
      proof (cases "bind_text c")
        case (Inl err)
        then show ?thesis using assms a b by (auto simp: add_user_def and_then_lift)
      next
        case (Inr pc)
        then show ?thesis using assms a b g
          by (auto simp: add_user_def and_then_lift Let_def split: if_splits)
      qed
    qed
  qed
qed

lemma touch_result:
  assumes "message_users_exist s" and "u \<in> set (users s)" and "u_id u' = u_id u"
    and "s' = s\<lparr>users := map (\<lambda>x. if u_id x = u_id u then u' else x) (users s)\<rparr>"
  shows "message_users_exist s' \<and> u_id u' \<in> set (map u_id (users s'))"
proof -
  have "map u_id (map (\<lambda>x. if u_id x = u_id u then u' else x) xs) = map u_id xs" for xs
    by (induction xs) (simp_all add: assms(3))
  then have ids: "map u_id (users s') = map u_id (users s)"
    by (simp add: assms(4))
  have msgs: "messages s' = messages s" by (simp add: assms(4))
  have sub: "set (map u_id (users s)) \<subseteq> set (map u_id (users s'))"
    unfolding ids by (rule subset_refl)
  have one: "message_users_exist s'"
    using assms(1) msgs sub by (rule exist_grow)
  have "u_id u \<in> u_id ` set (users s)" using assms(2) by (rule imageI)
  then have two: "u_id u' \<in> set (map u_id (users s'))"
    unfolding ids assms(3) by simp
  from one two show ?thesis by (rule conjI)
qed

lemma query_psid_result:
  assumes "query_user_by_psid psid s = (r, s')"
  shows "s' = s \<and> (\<forall>u. r = Inr (Some u) \<longrightarrow> u \<in> set (users s))"
proof (cases "bind_text psid")
  case (Inl err)
  then show ?thesis using assms by (auto simp: query_user_by_psid_def and_then_lift)
next
  case (Inr p)
  then have "s' = s" and "r = Inr (find (\<lambda>u. u_psid u = p) (users s))"
    using assms by (auto simp: query_user_by_psid_def and_then_lift)
  then show ?thesis using find_member [of "\<lambda>u. u_psid u = p" "users s"] by simp
qed

lemma query_instagram_id_result:
  assumes "query_user_by_instagram_id i s = (r, s')"
  shows "s' = s \<and> (\<forall>u. r = Inr (Some u) \<longrightarrow> u \<in> set (users s))"
proof (cases "bind_text i")
  case (Inl err)
  then show ?thesis using assms by (auto simp: query_user_by_instagram_id_def and_then_lift)
next
  case (Inr p)
  then have "s' = s" and "r = Inr (find (\<lambda>u. u_instagram_id u = p) (users s))"
    using assms by (auto simp: query_user_by_instagram_id_def and_then_lift)
  then show ?thesis using find_member [of "\<lambda>u. u_instagram_id u = p" "users s"] by simp
qed

lemma dm_user_step:
  assumes "message_users_exist s" and "\<forall>u. found = Some u \<longrightarrow> u \<in> set (users s)"
    and "(case found of
            None \<Rightarrow> add_user psid JNull JNull ts
          | Some u \<Rightarrow>
              let u' = u\<lparr>u_last_interaction_at := ts\<rparr>
              in and_then (update_user (u_id u) (\<lambda>_. u')) (\<lambda>_. ret u')) s = (r, s')"
  shows "message_users_exist s' \<and> (\<forall>u. r = Inr u \<longrightarrow> u_id u \<in> set (map u_id (users s')))"
proof (cases found)
  case None
  then show ?thesis using assms add_user_result by simp
next
  case (Some u)
  then have r: "r = Inr (u\<lparr>u_last_interaction_at := ts\<rparr>)"
    and s': "s' = s\<lparr>users := map (\<lambda>x. if u_id x = u_id u then u\<lparr>u_last_interaction_at := ts\<rparr>
                                       else x) (users s)\<rparr>"
    using assms(3) by (auto simp: update_user_def and_then_def ret_def Let_def)
  have "u \<in> set (users s)" using Some assms(2) by simp
  then show ?thesis using touch_result [OF assms(1) _ _ s'] r by simp
qed

lemma commenter_user_step:
  assumes "message_users_exist s" and "\<forall>u. found = Some u \<longrightarrow> u \<in> set (users s)"
    and "(case found of
            None \<Rightarrow> add_user JNull i un ts
          | Some u \<Rightarrow> touch_commenter u un ts) s = (r, s')"
  shows "message_users_exist s' \<and> (\<forall>u. r = Inr u \<longrightarrow> u_id u \<in> set (map u_id (users s')))"
proof (cases found)
  case None
  then show ?thesis using assms add_user_result by simp
next
  case (Some u)
  have mem: "u \<in> set (users s)" using Some assms(2) by simp
  show ?thesis
  proof (cases "username_differs (u_instagram_username u) un")
    case False
    then have r: "r = Inr (u\<lparr>u_last_interaction_at := ts\<rparr>)"
      and s': "s' = s\<lparr>users := map (\<lambda>x. if u_id x = u_id u then u\<lparr>u_last_interaction_at := ts\<rparr>
                                         else x) (users s)\<rparr>"
      using assms(3) Some
      by (auto simp: touch_commenter_def update_user_def and_then_def ret_def Let_def)
    show ?thesis using touch_result [OF assms(1) mem _ s'] r by simp
  next
    case True
    show ?thesis
    proof (cases "bind_text un")
      case (Inl err)
      then show ?thesis using assms True Some
        by (auto simp: touch_commenter_def and_then_lift)
    next
      case (Inr n)
      define u' where "u' = u\<lparr>u_instagram_username := n,
                       u_last_interaction_at :=
                         (if u_last_interaction_at u = ts then UtcNow else ts)\<rparr>"
      have r: "r = Inr u'"
        and s': "s' = s\<lparr>users := map (\<lambda>x. if u_id x = u_id u then u' else x) (users s)\<rparr>"
        using assms(3) Some True Inr
        by (auto simp: touch_commenter_def update_user_def and_then_def lift_def ret_def Let_def
            u'_def)
      have "u_id u' = u_id u" by (simp add: u'_def)
      then show ?thesis using touch_result [OF assms(1) mem _ s'] r by simp
    qed
  qed
qed

lemmas and_then_exist = and_then_inv [where I = message_users_exist]
lemmas lift_then_exist = lift_then_inv [where I = message_users_exist]
lemmas for_each_exist = for_each_inv [where I = message_users_exist]


lemma exist_handle_direct_message:
  assumes "message_users_exist s"
  shows "message_users_exist (snd (handle_direct_message e page tok ev psid s))"
  unfolding handle_direct_message_def
proof (rule lift_then_exist [OF _ assms], rule lift_then_exist [OF _ assms], rule and_then_exist)
  fix message_text message_timestamp found s1
  assume "query_user_by_psid psid s = (Inr found, s1)"
  then have s1: "s1 = s" and mem: "\<forall>u. found = Some u \<longrightarrow> u \<in> set (users s)"
    using query_psid_result by blast+
  let ?step = "case found of
                 None \<Rightarrow> add_user psid JNull JNull message_timestamp
               | Some u \<Rightarrow>
                   let u' = u\<lparr>u_last_interaction_at := message_timestamp\<rparr>
                   in and_then (update_user (u_id u) (\<lambda>_. u')) (\<lambda>_. ret u')"
  show "message_users_exist
          (snd (and_then ?step
                  (\<lambda>user. and_then
                     (add_message (Some (u_id user)) ''inbound_dm'' message_text message_timestamp ev)
                     (\<lambda>_. and_then (lift (py_lower message_text))
                        (\<lambda>message_text_lower.
                           send_instagram_message e psid
                             (response_message message_text_lower (u_instagram_username user))
                             page tok))) s1))"
  proof (rule and_then_exist)
    fix user s2
    assume "?step s1 = (Inr user, s2)"
    then have s2: "message_users_exist s2" and uid: "u_id user \<in> set (map u_id (users s2))"
      using dm_user_step [OF assms mem, of psid message_timestamp "Inr user" s2] s1 by simp_all
    have added: "message_users_exist
                   (snd (add_message (Some (u_id user)) ''inbound_dm'' message_text
                           message_timestamp ev s2))"
      using s2 uid by (intro exist_add_message) simp_all
    show "message_users_exist
            (snd (and_then
                    (add_message (Some (u_id user)) ''inbound_dm'' message_text message_timestamp ev)
                    (\<lambda>_. and_then (lift (py_lower message_text))
                       (\<lambda>message_text_lower.
                          send_instagram_message e psid
                            (response_message message_text_lower (u_instagram_username user))
                            page tok)) s2))"
    proof (rule and_then_exist)
      fix x :: unit and s3
      assume "add_message (Some (u_id user)) ''inbound_dm'' message_text message_timestamp ev s2 =
                (Inr x, s3)"
      then have "message_users_exist s3" using added by simp
      then show "message_users_exist
                   (snd (and_then (lift (py_lower message_text))
                           (\<lambda>message_text_lower.
                              send_instagram_message e psid
                                (response_message message_text_lower (u_instagram_username user))
                                page tok) s3))"
        by (intro lift_then_exist exist_send_dm)
    next
      fix err s3
      assume "add_message (Some (u_id user)) ''inbound_dm'' message_text message_timestamp ev s2 =
                (Inl err, s3)"
      then show "message_users_exist s3" using added by simp
    qed
  next
    fix err s2
    assume "?step s1 = (Inl err, s2)"
    then show "message_users_exist s2"
      using dm_user_step [OF assms mem, of psid message_timestamp "Inl err" s2] s1 by simp
  qed
next
  fix message_text message_timestamp err s1
  assume "query_user_by_psid psid s = (Inl err, s1)"
  then show "message_users_exist s1" using query_psid_result assms by blast
qed


lemma postback_user_step:
  assumes "message_users_exist s" and "\<forall>u. found = Some u \<longrightarrow> u \<in> set (users s)"
    and "(case found of
            Some u \<Rightarrow> update_user (u_id u) (\<lambda>_. u\<lparr>u_last_interaction_at := ts\<rparr>)
          | None \<Rightarrow> ret ()) s = (r, s')"
  shows "message_users_exist s' \<and>
         (case map_option u_id found of None \<Rightarrow> True | Some i \<Rightarrow> i \<in> set (map u_id (users s')))"
proof (cases found)
  case None
  then show ?thesis using assms by (simp add: ret_def)
next
  case (Some u)
  then have s': "s' = s\<lparr>users := map (\<lambda>x. if u_id x = u_id u then u\<lparr>u_last_interaction_at := ts\<rparr>
                                       else x) (users s)\<rparr>"
    using assms(3) by (auto simp: update_user_def)
  have "u \<in> set (users s)" using Some assms(2) by simp
  then show ?thesis using touch_result [OF assms(1) _ _ s'] Some by simp
qed

lemma exist_handle_postback:
  assumes "message_users_exist s"
  shows "message_users_exist (snd (handle_postback e page tok ev psid s))"
  unfolding handle_postback_def
  apply (rule lift_then_exist [OF _ assms])
  apply (rule lift_then_exist [OF _ assms])
  apply (rule and_then_exist)
  subgoal premises q for payload ts found s1
  proof -
    have s1: "s1 = s" and mem: "\<forall>u. found = Some u \<longrightarrow> u \<in> set (users s)"
      using q query_psid_result by blast+
    show ?thesis
      apply (rule and_then_exist)
      subgoal premises c for x s2
      proof -
        have s2: "message_users_exist s2"
          and uid: "case map_option u_id found of None \<Rightarrow> True
                    | Some i \<Rightarrow> i \<in> set (map u_id (users s2))"
          using postback_user_step [OF assms mem, of ts "Inr x" s2] c s1 by simp_all
        have added: "message_users_exist
                       (snd (add_message (map_option u_id found) ''inbound_postback''
                               (JStr (''POSTBACK: '' @ py_str payload)) ts ev s2))"
          using s2 uid by (rule exist_add_message)
        show ?thesis
          apply (rule and_then_exist)
          subgoal premises m for y s3
            using added m by (simp add: exist_send_dm)
          subgoal premises m for err s3
            using added m by simp
          done
      qed
      subgoal premises c for err s2
        using postback_user_step [OF assms mem, of ts "Inl err" s2] c s1 by simp
      done
  qed
  subgoal premises q for payload ts err s1
    using q query_psid_result assms by blast
  done

lemma exist_process_messaging_event:
  "message_users_exist s \<Longrightarrow>
   message_users_exist (snd (process_messaging_event e page tok ev s))"
  by (simp add: process_messaging_event_def and_then_lift ret_def exist_handle_direct_message
      exist_handle_postback split: sum.splits)

lemma exist_add_comment:
  assumes "message_users_exist s"
  shows "message_users_exist (snd (add_comment uid cid mid text ts pl s))"
proof -
  have g: "message_users_exist (s\<lparr>comments := cs\<rparr>)" for cs
    using assms by (rule exist_grow) simp_all
  show ?thesis
    using assms g
    by (cases "bind_text cid"; cases "bind_text mid"; cases "bind_text text")
       (simp_all add: add_comment_def and_then_lift split: option.splits)
qed

lemma exist_store_and_reply:
  assumes "message_users_exist s"
  shows "message_users_exist
           (snd (and_then (query_user_by_instagram_id sender_ig_id) (\<lambda>found.
                 and_then
                   (case found of
                      None \<Rightarrow> add_user JNull sender_ig_id sender_username comment_timestamp
                    | Some u \<Rightarrow> touch_commenter u sender_username comment_timestamp) (\<lambda>user.
                 and_then
                   (add_comment (Some (u_id user)) comment_id media_id comment_text
                      comment_timestamp change) (\<lambda>_.
                   automate_reply e comment_id comment_text media_id sender_ig_id sender_username
                     token))) s))"
  apply (rule and_then_exist)
  subgoal premises q for found s1
  proof -
    have s1: "s1 = s" and mem: "\<forall>u. found = Some u \<longrightarrow> u \<in> set (users s)"
      using q query_instagram_id_result by blast+
    show ?thesis
      apply (rule and_then_exist)
      subgoal premises c for user s2
      proof -
        have s2: "message_users_exist s2"
          using commenter_user_step [OF assms mem, of sender_ig_id sender_username
              comment_timestamp "Inr user" s2] c s1 by simp
        have added: "message_users_exist
                       (snd (add_comment (Some (u_id user)) comment_id media_id comment_text
                               comment_timestamp change s2))"
          using s2 by (rule exist_add_comment)
        show ?thesis
          apply (rule and_then_exist)
          subgoal premises m for y s3
            using added m by (simp add: exist_automate_reply)
          subgoal premises m for err s3
            using added m by simp
          done
      qed
      subgoal premises c for err s2
        using commenter_user_step [OF assms mem, of sender_ig_id sender_username
            comment_timestamp "Inl err" s2] c s1 by simp
      done
  qed
  subgoal premises q for err s1
    using q query_instagram_id_result assms by blast
  done

lemma exist_process_comment:
  "message_users_exist s \<Longrightarrow> message_users_exist (snd (process_comment e token change val s))"
  unfolding process_comment_def
  by (intro lift_then_exist) (simp_all add: exist_store_and_reply ret_def)

lemma exist_process_change:
  "message_users_exist s \<Longrightarrow> message_users_exist (snd (process_change e token change s))"
  unfolding process_change_def
  by (intro lift_then_exist) (simp_all add: exist_process_comment ret_def lift_def)

lemma exist_process_entry:
  "message_users_exist s \<Longrightarrow> message_users_exist (snd (process_entry e entry s))"
  unfolding process_entry_def
  by (intro lift_then_exist)
     (auto simp: ret_def split: option.splits
       intro!: lift_then_exist for_each_exist exist_process_messaging_event exist_process_change)

lemma exist_handle_webhook:
  assumes "message_users_exist s"
  shows "message_users_exist (snd (handle_webhook e data s))"
proof -
  have run: "message_users_exist (snd (for_each (process_entry e) entries s))" for entries
    using assms by (intro for_each_exist exist_process_entry)
  have answered: "message_users_exist
                    (snd (and_then (for_each (process_entry e) entries) (\<lambda>_. ret ok_response) s))"
    for entries
  proof (rule and_then_exist)
    fix x :: unit and s'
    assume "for_each (process_entry e) entries s = (Inr x, s')"
    then show "message_users_exist (snd (ret ok_response s'))"
      using run [of entries] by (simp add: ret_def)
  next
    fix err s'
    assume "for_each (process_entry e) entries s = (Inl err, s')"
    then show "message_users_exist s'" using run [of entries] by simp
  qed
  show ?thesis
    unfolding handle_webhook_def
    using assms answered
    by (auto simp: ret_def intro!: lift_then_exist)
qed

lemma reachable_message_users_exist:
  "message_users_exist
     (fold (\<lambda>data s. snd (handle_webhook e data s)) deliveries
        \<lparr>users = [], messages = [], comments = [], requests = []\<rparr>)"
proof -
  have "message_users_exist s \<Longrightarrow>
        message_users_exist (fold (\<lambda>data s. snd (handle_webhook e data s)) deliveries s)" for s
    by (induction deliveries arbitrary: s) (simp_all add: exist_handle_webhook)
  moreover have "message_users_exist \<lparr>users = [], messages = [], comments = [], requests = []\<rparr>"
    by (simp add: message_users_exist_def)
  ultimately show ?thesis by blast
qed

section \<open>Storing a comment\<close>

text \<open>The find-or-create of the commenter returns a user and touches the User table only.\<close>

lemma commenter_step:
  assumes "bind_text un = Inr n"
    and "found = find (\<lambda>u. u_instagram_id u = Some i) (users s)"
  shows "\<exists>user s'. (case found of
                      None \<Rightarrow> add_user JNull (JStr i) un ts
                    | Some u \<Rightarrow> touch_commenter u un ts) s = (Inr user, s')
           \<and> comments s' = comments s \<and> requests s' = requests s \<and> messages s' = messages s"
proof (cases found)
  case None
  then have "unique_ok (Some i) (map u_instagram_id (users s))"
    using assms(2) find_None_unique [of u_instagram_id i "users s"] by simp
  then show ?thesis
    using None assms(1)
    by (simp add: add_user_def and_then_lift unique_ok_def Let_def)
next
  case (Some u)
  then show ?thesis
    using assms(1)
    by (simp add: touch_commenter_def update_user_def and_then_def lift_def ret_def Let_def)
qed

lemma add_comment_duplicate:
  "cid \<in> set (map c_comment_id (comments s)) \<Longrightarrow>
   add_comment uid (JStr cid) (JStr mid) (JStr text) ts payload s = (Inl IntegrityError, s)"
  by (auto simp: add_comment_def and_then_lift)

lemma add_comment_new:
  "cid \<notin> set (map c_comment_id (comments s)) \<Longrightarrow>
   add_comment uid (JStr cid) (JStr mid) (JStr text) ts payload s =
     (Inr (), s\<lparr>comments := comments s @
        [\<lparr>c_id = next_id (map c_id (comments s)), c_user_id = uid, c_comment_id = cid,
          c_media_id = mid, c_comment_text = Some text, c_timestamp = ts,
          c_raw_payload = payload\<rparr>]\<rparr>)"
  by (auto simp: add_comment_def and_then_lift)

lemma sibling_read:
  "bind_err r (\<lambda>m. py_get m k) = Inr v \<Longrightarrow> \<exists>w. bind_err r (\<lambda>m. py_get m k') = Inr w"
  by (cases r; cases "projr r") (auto simp: bind_err_def)

lemma comment_fields:
  assumes "comment_with_fields e val cid text mid uid un"
  obtains n ts mt where
    "py_get val ''id'' = Inr (JStr cid)" "cid \<noteq> []"
    "py_get val ''text'' = Inr (JStr text)" "text \<noteq> []"
    "bind_err (py_get_default val ''media'' (JObj [])) (\<lambda>m. py_get m ''id'') = Inr (JStr mid)"
    "mid \<noteq> []"
    "bind_err (py_get_default val ''media'' (JObj [])) (\<lambda>m. py_get m ''media_type'') = Inr mt"
    "bind_err (py_get_default val ''from'' (JObj [])) (\<lambda>f. py_get f ''id'') = Inr (JStr uid)"
    "uid \<noteq> []"
    "bind_err (py_get_default val ''from'' (JObj [])) (\<lambda>f. py_get f ''username'') = Inr un"
    "bind_text un = Inr n"
    "bind_err (py_get val ''created_time'') (fromtimestamp e) = Inr ts"
    "truthy val"
proof -
  have m: "bind_err (py_get_default val ''media'' (JObj [])) (\<lambda>m. py_get m ''id'') =
           Inr (JStr mid)"
    using assms by (simp add: comment_with_fields_def)
  obtain mt where
    "bind_err (py_get_default val ''media'' (JObj [])) (\<lambda>m. py_get m ''media_type'') = Inr mt"
    using sibling_read [OF m] by blast
  moreover have "truthy val" using assms by (cases val) (auto simp: comment_with_fields_def)
  ultimately show ?thesis
    using assms that
    by (auto simp: comment_with_fields_def split: sum.splits)
qed

text \<open>
  A well-formed comment up to the automation: when its comment id is in the Comment
  table, the commit of the new row raises and the table is as before; when it is not, the
  row is added and the automation starts, with no request made so far.
\<close>

lemma process_change_duplicate:
  assumes "py_get change ''field'' = Inr (JStr ''comments'')"
    and "py_get change ''value'' = Inr val"
    and "comment_with_fields e val cid text mid uid un"
    and "cid \<in> set (map c_comment_id (comments s))"
  shows "\<exists>s'. process_change e token change s = (Inl IntegrityError, s')
            \<and> comments s' = comments s \<and> requests s' = requests s"
proof -
  obtain n ts mt where f:
    "py_get val ''id'' = Inr (JStr cid)" "cid \<noteq> []"
    "py_get val ''text'' = Inr (JStr text)" "text \<noteq> []"
    "bind_err (py_get_default val ''media'' (JObj [])) (\<lambda>m. py_get m ''id'') = Inr (JStr mid)"
    "mid \<noteq> []"
    "bind_err (py_get_default val ''media'' (JObj [])) (\<lambda>m. py_get m ''media_type'') = Inr mt"
    "bind_err (py_get_default val ''from'' (JObj [])) (\<lambda>f. py_get f ''id'') = Inr (JStr uid)"
    "uid \<noteq> []"
    "bind_err (py_get_default val ''from'' (JObj [])) (\<lambda>f. py_get f ''username'') = Inr un"
    "bind_text un = Inr n"
    "bind_err (py_get val ''created_time'') (fromtimestamp e) = Inr ts"
    "truthy val"
    using assms(3) by (rule comment_fields)
  obtain user s' where step:
    "(case find (\<lambda>u. u_instagram_id u = Some uid) (users s) of
        None \<Rightarrow> add_user JNull (JStr uid) un ts
      | Some u \<Rightarrow> touch_commenter u un ts) s = (Inr user, s')"
    and same: "comments s' = comments s" "requests s' = requests s"
    using commenter_step [OF f(11) refl, where i = uid and s = s and ts = ts] by blast
  have dup: "add_comment (Some (u_id user)) (JStr cid) (JStr mid) (JStr text) ts change s' =
             (Inl IntegrityError, s')"
    using assms(4) same by (intro add_comment_duplicate) simp
  have query: "query_user_by_instagram_id (JStr uid) s =
               (Inr (find (\<lambda>u. u_instagram_id u = Some uid) (users s)), s)"
    by (simp add: query_user_by_instagram_id_def and_then_lift)
  have "process_comment e token change val s = (Inl IntegrityError, s')"
    using f by (simp add: process_comment_def and_then_def lift_def query step dup)
  then have "process_change e token change s = (Inl IntegrityError, s')"
    using assms(1,2) f(13) by (simp add: process_change_def and_then_lift_Inr)
  then show ?thesis using same by blast
qed

lemma process_change_stored:
  assumes "py_get change ''field'' = Inr (JStr ''comments'')"
    and "py_get change ''value'' = Inr val"
    and "comment_with_fields e val cid text mid uid un"
    and "cid \<notin> set (map c_comment_id (comments s))"
  shows "\<exists>s'. process_change e token change s =
                automate_reply e (JStr cid) (JStr text) (JStr mid) (JStr uid) un token s'
            \<and> requests s' = requests s
            \<and> cid \<in> set (map c_comment_id (comments s'))"
proof -
  obtain n ts mt where f:
    "py_get val ''id'' = Inr (JStr cid)" "cid \<noteq> []"
    "py_get val ''text'' = Inr (JStr text)" "text \<noteq> []"
    "bind_err (py_get_default val ''media'' (JObj [])) (\<lambda>m. py_get m ''id'') = Inr (JStr mid)"
    "mid \<noteq> []"
    "bind_err (py_get_default val ''media'' (JObj [])) (\<lambda>m. py_get m ''media_type'') = Inr mt"
    "bind_err (py_get_default val ''from'' (JObj [])) (\<lambda>f. py_get f ''id'') = Inr (JStr uid)"
    "uid \<noteq> []"
    "bind_err (py_get_default val ''from'' (JObj [])) (\<lambda>f. py_get f ''username'') = Inr un"
    "bind_text un = Inr n"
    "bind_err (py_get val ''created_time'') (fromtimestamp e) = Inr ts"
    "truthy val"
    using assms(3) by (rule comment_fields)
  obtain user s1 where step:
    "(case find (\<lambda>u. u_instagram_id u = Some uid) (users s) of
        None \<Rightarrow> add_user JNull (JStr uid) un ts
      | Some u \<Rightarrow> touch_commenter u un ts) s = (Inr user, s1)"
    and same: "comments s1 = comments s" "requests s1 = requests s"
    using commenter_step [OF f(11) refl, where i = uid and s = s and ts = ts] by blast
  define s2 where "s2 = s1\<lparr>comments := comments s1 @
        [\<lparr>c_id = next_id (map c_id (comments s1)), c_user_id = Some (u_id user),
          c_comment_id = cid, c_media_id = mid, c_comment_text = Some text, c_timestamp = ts,
          c_raw_payload = change\<rparr>]\<rparr>"
  have new: "add_comment (Some (u_id user)) (JStr cid) (JStr mid) (JStr text) ts change s1 =
             (Inr (), s2)"
    unfolding s2_def using assms(4) same by (intro add_comment_new) simp
  have query: "query_user_by_instagram_id (JStr uid) s =
               (Inr (find (\<lambda>u. u_instagram_id u = Some uid) (users s)), s)"
    by (simp add: query_user_by_instagram_id_def and_then_lift)
  have "process_comment e token change val s =
        automate_reply e (JStr cid) (JStr text) (JStr mid) (JStr uid) un token s2"
    using f by (simp add: process_comment_def and_then_def lift_def query step new)
  then have "process_change e token change s =
             automate_reply e (JStr cid) (JStr text) (JStr mid) (JStr uid) un token s2"
    using assms(1,2) f(13) by (simp add: process_change_def and_then_lift_Inr)
  moreover have "requests s2 = requests s" "cid \<in> set (map c_comment_id (comments s2))"
    using same by (simp_all add: s2_def)
  ultimately show ?thesis by blast
qed

section \<open>A stored comment id stays unique\<close>

text \<open>
  Once a comment id is in the Comment table, nothing the handler does changes the rows
  that have it: only \<^verbatim>\<open>db.session.add(Comment(...))\<close> touches the table, and it raises for
  that id.
\<close>

lemma keeps_rows_frame:
  "keeps_rows cid rows s \<Longrightarrow> comments s' = comments s \<Longrightarrow> keeps_rows cid rows s'"
  by (simp add: keeps_rows_def rows_with_comment_id_def)

lemma and_then_keeps:
  assumes "\<And>s. I s \<Longrightarrow> I (snd (m s))" and "\<And>x s. I s \<Longrightarrow> I (snd (f x s))" and "I s"
  shows "I (snd (and_then m f s))"
proof (rule and_then_inv)
  fix x s' assume "m s = (Inr x, s')"
  then have "I s'" using assms(1) [OF assms(3)] by simp
  then show "I (snd (f x s'))" by (rule assms(2))
next
  fix err s' assume "m s = (Inl err, s')"
  then show "I s'" using assms(1) [OF assms(3)] by simp
qed

lemmas and_then_rows = and_then_keeps [where I = "keeps_rows cid rows" for cid rows]
lemmas for_each_rows = for_each_inv [where I = "keeps_rows cid rows" for cid rows]

lemma rows_lift: "keeps_rows cid rows s \<Longrightarrow> keeps_rows cid rows (snd (lift r s))"
  by (simp add: lift_def)

lemma rows_ret: "keeps_rows cid rows s \<Longrightarrow> keeps_rows cid rows (snd (ret x s))"
  by (simp add: ret_def)

lemma rows_raise: "keeps_rows cid rows s \<Longrightarrow> keeps_rows cid rows (snd (raise err s))"
  by (simp add: raise_def)

lemma rows_post: "keeps_rows cid rows s \<Longrightarrow> keeps_rows cid rows (snd (post e req s))"
  by (rule keeps_rows_frame) (simp_all add: post_def)

lemma rows_query_psid:
  "keeps_rows cid rows s \<Longrightarrow> keeps_rows cid rows (snd (query_user_by_psid v s))"
  by (cases "bind_text v") (simp_all add: query_user_by_psid_def and_then_lift)

lemma rows_query_instagram_id:
  "keeps_rows cid rows s \<Longrightarrow> keeps_rows cid rows (snd (query_user_by_instagram_id v s))"
  by (cases "bind_text v") (simp_all add: query_user_by_instagram_id_def and_then_lift)

lemma rows_update_user:
  "keeps_rows cid rows s \<Longrightarrow> keeps_rows cid rows (snd (update_user uid f s))"
  by (rule keeps_rows_frame) (simp_all add: update_user_def)

lemma rows_add_user:
  assumes "keeps_rows cid rows s"
  shows "keeps_rows cid rows (snd (add_user a b c d s))"
proof -
  have g: "keeps_rows cid rows (s\<lparr>users := us\<rparr>)" for us
    using assms by (rule keeps_rows_frame) simp
  show ?thesis
    using assms g
    by (cases "bind_text a"; cases "bind_text b"; cases "bind_text c")
       (simp_all add: add_user_def and_then_lift Let_def)
qed

lemma rows_add_message:
  assumes "keeps_rows cid rows s"
  shows "keeps_rows cid rows (snd (add_message uid ty txt ts pl s))"
proof -
  have g: "keeps_rows cid rows (s\<lparr>messages := ms\<rparr>)" for ms
    using assms by (rule keeps_rows_frame) simp
  show ?thesis
    using assms g by (cases "bind_text txt") (simp_all add: add_message_def and_then_lift)
qed

lemma add_comment_cases:
  assumes "add_comment uid c m t ts pl s = (r, s')"
  shows "(\<exists>err. r = Inl err \<and> s' = s)
       \<or> (\<exists>row. c_comment_id row \<notin> set (map c_comment_id (comments s))
              \<and> s' = s\<lparr>comments := comments s @ [row]\<rparr>)"
proof (cases "bind_text c")
  case (Inl err)
  then show ?thesis using assms by (auto simp: add_comment_def and_then_lift)
next
  case c: (Inr pc)
  show ?thesis
  proof (cases "bind_text m")
    case (Inl err)
    then show ?thesis using assms c by (auto simp: add_comment_def and_then_lift)
  next
    case m: (Inr pm)
    show ?thesis
    proof (cases "bind_text t")
      case (Inl err)
      then show ?thesis using assms c m by (auto simp: add_comment_def and_then_lift)
    next
      case t: (Inr pt)
      show ?thesis
      proof (cases "\<exists>x y. pc = Some x \<and> pm = Some y")
        case False
        then have "r = Inl IntegrityError \<and> s' = s"
          using assms c m t
          by (cases pc; cases pm) (auto simp: add_comment_def and_then_lift)
        then show ?thesis by blast
      next
        case True
        then obtain x y where xy: "pc = Some x" "pm = Some y" by blast
        have mem: "Some x \<in> set (map (\<lambda>r. Some (c_comment_id r)) (comments s)) \<longleftrightarrow>
                   x \<in> set (map c_comment_id (comments s))"
          by force
        show ?thesis
        proof (cases "x \<in> set (map c_comment_id (comments s))")
          case True
          then have "r = Inl IntegrityError \<and> s' = s"
            using assms c m t xy mem by (simp add: add_comment_def and_then_lift)
          then show ?thesis by blast
        next
          case False
          define row where "row = \<lparr>c_id = next_id (map c_id (comments s)), c_user_id = uid,
              c_comment_id = x, c_media_id = y, c_comment_text = pt, c_timestamp = ts,
              c_raw_payload = pl\<rparr>"
          have "s' = s\<lparr>comments := comments s @ [row]\<rparr>"
            using assms c m t xy mem False by (simp add: add_comment_def and_then_lift row_def)
          moreover have "c_comment_id row \<notin> set (map c_comment_id (comments s))"
            using False by (simp add: row_def)
          ultimately show ?thesis by blast
        qed
      qed
    qed
  qed
qed

lemma rows_add_comment:
  assumes "keeps_rows cid rows s"
  shows "keeps_rows cid rows (snd (add_comment uid c m t ts pl s))"
proof -
  obtain r s' where res: "add_comment uid c m t ts pl s = (r, s')"
    by (cases "add_comment uid c m t ts pl s")
  have stored: "cid \<in> set (map c_comment_id (comments s))"
  proof -
    obtain r0 where "r0 \<in> set (rows_with_comment_id cid s)"
      using assms by (cases rows) (auto simp: keeps_rows_def)
    then show ?thesis by (auto simp: rows_with_comment_id_def)
  qed
  from add_comment_cases [OF res] show ?thesis
  proof
    assume "\<exists>err. r = Inl err \<and> s' = s"
    then show ?thesis using res assms by auto
  next
    assume "\<exists>row. c_comment_id row \<notin> set (map c_comment_id (comments s))
              \<and> s' = s\<lparr>comments := comments s @ [row]\<rparr>"
    then obtain row where row: "c_comment_id row \<notin> set (map c_comment_id (comments s))"
      and s': "s' = s\<lparr>comments := comments s @ [row]\<rparr>" by blast
    have "c_comment_id row \<noteq> cid" using row stored by auto
    then show ?thesis
      using res assms s' by (simp add: keeps_rows_def rows_with_comment_id_def)
  qed
qed

lemma rows_lift_then:
  assumes "\<And>x s. keeps_rows cid rows s \<Longrightarrow> keeps_rows cid rows (snd (f x s))"
    and "keeps_rows cid rows s"
  shows "keeps_rows cid rows (snd (and_then (lift r) f s))"
  using assms by (cases r) (auto simp: and_then_def lift_def)

lemma rows_send_dm:
  "keeps_rows cid rows s \<Longrightarrow>
   keeps_rows cid rows (snd (send_instagram_message e psid txt page tok s))"
  unfolding send_instagram_message_def
  apply (rule and_then_rows)
    apply (erule rows_post)
   apply (simp split: http_outcome.splits option.splits)
   apply (intro conjI impI allI and_then_rows)
  by (auto simp: ret_def raise_def split: option.splits
      intro: rows_query_psid rows_add_message)

lemma rows_send_private_reply:
  "keeps_rows cid rows s \<Longrightarrow>
   keeps_rows cid rows (snd (send_instagram_private_reply_to_comment e c txt tok s))"
  unfolding send_instagram_private_reply_to_comment_def
  apply (rule and_then_rows)
    apply (erule rows_post)
  by (auto simp: ret_def raise_def split: http_outcome.splits intro: rows_add_message)


lemmas rows_intros = rows_lift rows_ret rows_raise rows_post rows_query_psid
  rows_query_instagram_id rows_update_user rows_add_user rows_add_message rows_add_comment
  rows_send_dm rows_send_private_reply

lemma rows_reply_to_comment:
  "keeps_rows cid rows s \<Longrightarrow>
   keeps_rows cid rows (snd (reply_to_comment e b matched c un tok s))"
  unfolding reply_to_comment_def
  by (auto intro!: rows_lift_then rows_send_private_reply)

lemma rows_automate_reply:
  "keeps_rows cid rows s \<Longrightarrow>
   keeps_rows cid rows (snd (automate_reply e c text mid sid un tok s))"
  unfolding automate_reply_def
  by (auto intro!: rows_lift_then rows_reply_to_comment rows_ret)

lemma rows_touch_commenter:
  "keeps_rows cid rows s \<Longrightarrow> keeps_rows cid rows (snd (touch_commenter u un ts s))"
  unfolding touch_commenter_def Let_def
  by (auto intro!: rows_lift_then and_then_rows rows_update_user rows_ret)

lemma rows_process_comment:
  "keeps_rows cid rows s \<Longrightarrow> keeps_rows cid rows (snd (process_comment e tok change val s))"
  unfolding process_comment_def
  by (auto split: option.splits
      intro!: rows_lift_then and_then_rows rows_query_instagram_id rows_add_user
        rows_touch_commenter rows_add_comment rows_automate_reply rows_ret)

lemma rows_process_change:
  "keeps_rows cid rows s \<Longrightarrow> keeps_rows cid rows (snd (process_change e tok change s))"
  unfolding process_change_def
  by (auto intro!: rows_lift_then rows_process_comment rows_ret rows_lift)

lemma rows_handle_direct_message:
  "keeps_rows cid rows s \<Longrightarrow>
   keeps_rows cid rows (snd (handle_direct_message e page tok ev psid s))"
  unfolding handle_direct_message_def Let_def
  by (auto split: option.splits
      intro!: rows_lift_then and_then_rows rows_query_psid rows_add_user rows_update_user
        rows_add_message rows_send_dm rows_ret)

lemma rows_handle_postback:
  "keeps_rows cid rows s \<Longrightarrow>
   keeps_rows cid rows (snd (handle_postback e page tok ev psid s))"
  unfolding handle_postback_def
  by (auto split: option.splits
      intro!: rows_lift_then and_then_rows rows_query_psid rows_update_user
        rows_add_message rows_send_dm rows_ret)

lemma rows_process_messaging_event:
  "keeps_rows cid rows s \<Longrightarrow>
   keeps_rows cid rows (snd (process_messaging_event e page tok ev s))"
  unfolding process_messaging_event_def
  by (auto intro!: rows_lift_then rows_handle_direct_message rows_handle_postback rows_ret)

lemma rows_process_entry:
  "keeps_rows cid rows s \<Longrightarrow> keeps_rows cid rows (snd (process_entry e entry s))"
  unfolding process_entry_def
  by (auto split: option.splits
      intro!: rows_lift_then for_each_rows rows_process_messaging_event rows_process_change
        rows_ret)

lemma rows_for_each_entry:
  "keeps_rows cid rows s \<Longrightarrow>
   keeps_rows cid rows (snd (for_each (process_entry e) entries s))"
  by (intro for_each_rows rows_process_entry)

lemma rows_handle_webhook:
  "keeps_rows cid rows s \<Longrightarrow> keeps_rows cid rows (snd (handle_webhook e data s))"
  unfolding handle_webhook_def
  by (auto intro!: rows_lift_then and_then_rows rows_for_each_entry rows_ret)

text \<open>
  C1 at two deliveries of two entries each, both entries for the configured page. In the
  first delivery the messaging event of the first entry has no \<^verbatim>\<open>sender\<close>, so
  \<^verbatim>\<open>messaging_event["sender"]\<close> raises \<^verbatim>\<open>KeyError\<close>; in the second the recipient of the first
  entry has no \<^verbatim>\<open>id\<close>, so finding the page id raises \<^verbatim>\<open>KeyError\<close>. Either way the exception
  leaves the handler: there is no 200 response, and the well-formed message of the second
  entry, which alone is answered 200 and stored, is never processed.
\<close>

theorem malformed_entry_aborts_batch:
  "handle_webhook acme_env
     (delivery [messaging_entry [senderless_event], messaging_entry [dm_event ''p1'' ''Hello'']])
     empty_state = (Inl KeyError, empty_state)
   \<and> handle_webhook acme_env
       (delivery [idless_recipient_entry, messaging_entry [dm_event ''p1'' ''Hello'']])
       empty_state = (Inl KeyError, empty_state)
   \<and> fst (handle_webhook acme_env (delivery [messaging_entry [dm_event ''p1'' ''Hello'']])
            empty_state) = Inr ok_response
   \<and> map m_message_type
         (messages (snd (handle_webhook acme_env
                           (delivery [messaging_entry [dm_event ''p1'' ''Hello'']]) empty_state))) =
       [''inbound_dm'', ''outbound_dm'']"
  by (simp add: example_defs model_defs)

text \<open>
  A comment on media \<open>M\<close> whose entry in the rule table has a non-empty reply message
  resolves that entry, whatever the text of the comment (no keyword list is looked at),
  and the private reply requested for a commenter whose name is the string \<open>username\<close> is
  that entry's message with the name filled in.
\<close>

lemma media_rule_wins:
  assumes "REEL_KEYWORDS e = JObj table"
    and "map_of table M = Some (JObj rule)"
    and "map_of rule ''private_reply_message'' = Some (JStr template)"
    and "template \<noteq> []"
  shows "match_reel_config (REEL_KEYWORDS e) (JStr M) l = Inr (JObj rule)
    \<and> requests (snd (automate_reply e comment_id (JStr T) (JStr M) sender_ig_id (JStr username)
                       token s)) =
      requests s @ [PrivateReply token comment_id (py_replace template ''{username}'' username)]"
proof -
  have rule_ne: "rule \<noteq> []" using assms(3) by auto
  have m: "\<And>l. match_reel_config (REEL_KEYWORDS e) (JStr M) l = Inr (JObj rule)"
    using assms(1,2) rule_ne by (simp add: match_reel_config_def bind_err_def)
  have "automate_reply e comment_id (JStr T) (JStr M) sender_ig_id (JStr username) token s =
        send_instagram_private_reply_to_comment e comment_id
          (py_replace template ''{username}'' username) token s"
    using assms(3,4) rule_ne
    by (simp add: automate_reply_def m reply_to_comment_def replace_username_def
        check_if_user_follows_page_def prog_defs)
  then show ?thesis using m by (simp add: requests_private_reply)
qed

text \<open>
  C2 at a commenter without \<^verbatim>\<open>username\<close>. The comment is on \<open>M1\<close>, whose entry has a reply
  message; its text has none of that entry's keywords and one of the default keywords.
  The entry of \<open>M1\<close> is resolved, and then \<^verbatim>\<open>dm_message.replace("{username}", None)\<close> raises
  \<^verbatim>\<open>TypeError\<close>: the comment is not replied to, and the exception leaves the handler.
\<close>

theorem media_rule_reply_raises:
  "map_of acme_rules ''M1'' = Some (JObj m1_rule)
   \<and> map_of m1_rule ''private_reply_message'' = Some (JStr ''Hi {username}, here it is'')
   \<and> match_reel_config (REEL_KEYWORDS acme_env) (JStr ''M1'') (lower ''send me the LINK please'') =
       Inr (JObj m1_rule)
   \<and> fst (handle_webhook acme_env
            (delivery [changes_entry
               [anonymous_comment_change ''c3'' ''M1'' ''send me the LINK please'']])
            empty_state) = Inl TypeError
   \<and> requests (snd (handle_webhook acme_env
            (delivery [changes_entry
               [anonymous_comment_change ''c3'' ''M1'' ''send me the LINK please'']])
            empty_state)) = []"
  by (simp add: example_defs model_defs)

text \<open>The automation of a stored comment on \<open>M\<close>, by what the lookup of \<open>M\<close> gives.\<close>

lemma automate_reply_after_lookup:
  assumes "REEL_KEYWORDS e = JObj table"
  shows "(map_of table M = Some (JObj rule) \<and> rule \<noteq> []
          \<and> (map_of rule ''private_reply_message'' = None
              \<or> (\<exists>t. map_of rule ''private_reply_message'' = Some t \<and> \<not> truthy t))
        \<longrightarrow> automate_reply e comment_id (JStr T) (JStr M) sender_ig_id sender_username token s =
            (Inr (), s))
    \<and> ((map_of table M = None \<or> (\<exists>v. map_of table M = Some v \<and> \<not> truthy v))
        \<and> map_of table ''DEFAULT_KEYWORDS'' = Some (JObj dflt)
        \<and> map_of dflt ''keywords'' = Some (JArr (map JStr ks))
        \<and> (\<exists>k \<in> set ks. py_in (lower k) (lower T))
        \<and> map_of dflt ''private_reply_message'' = Some (JStr template) \<and> template \<noteq> []
        \<longrightarrow> requests (snd (automate_reply e comment_id (JStr T) (JStr M) sender_ig_id
                             (JStr username) token s)) =
            requests s @ [PrivateReply token comment_id (py_replace template ''{username}'' username)])"
proof (intro conjI impI)
  assume a: "map_of table M = Some (JObj rule) \<and> rule \<noteq> []
          \<and> (map_of rule ''private_reply_message'' = None
              \<or> (\<exists>t. map_of rule ''private_reply_message'' = Some t \<and> \<not> truthy t))"
  then have m: "match_reel_config (REEL_KEYWORDS e) (JStr M) (lower T) = Inr (JObj rule)"
    using assms by (simp add: match_reel_config_def bind_err_def)
  from a show "automate_reply e comment_id (JStr T) (JStr M) sender_ig_id sender_username token s =
            (Inr (), s)"
    by (auto simp: automate_reply_def m prog_defs)
next
  assume a: "(map_of table M = None \<or> (\<exists>v. map_of table M = Some v \<and> \<not> truthy v))
        \<and> map_of table ''DEFAULT_KEYWORDS'' = Some (JObj dflt)
        \<and> map_of dflt ''keywords'' = Some (JArr (map JStr ks))
        \<and> (\<exists>k \<in> set ks. py_in (lower k) (lower T))
        \<and> map_of dflt ''private_reply_message'' = Some (JStr template) \<and> template \<noteq> []"
  then have dne: "dflt \<noteq> []" by auto
  have m: "match_reel_config (REEL_KEYWORDS e) (JStr M) (lower T) = Inr (JObj dflt)"
    using assms a by (auto simp: match_reel_config_def bind_err_def scan_keywords_strings)
  have "automate_reply e comment_id (JStr T) (JStr M) sender_ig_id (JStr username) token s =
        send_instagram_private_reply_to_comment e comment_id
          (py_replace template ''{username}'' username) token s"
    using a dne
    by (simp add: automate_reply_def m reply_to_comment_def replace_username_def
        check_if_user_follows_page_def prog_defs)
  then show "requests (snd (automate_reply e comment_id (JStr T) (JStr M) sender_ig_id
                             (JStr username) token s)) =
            requests s @ [PrivateReply token comment_id (py_replace template ''{username}'' username)]"
    by (simp add: requests_private_reply)
qed

lemma lookup_blocks_default:
  assumes "map_of table M = Some (JObj rule)" and "rule \<noteq> []"
  shows "match_reel_config (JObj table) (JStr M) l = Inr (JObj rule)"
  using assms by (simp add: match_reel_config_def bind_err_def)

lemma lookup_falls_through:
  assumes "map_of table M = None \<or> (\<exists>v. map_of table M = Some v \<and> \<not> truthy v)"
    and "map_of table ''DEFAULT_KEYWORDS'' = Some (JObj dflt)"
    and "map_of dflt ''keywords'' = Some (JArr (map JStr ks))"
    and "\<exists>k \<in> set ks. py_in (lower k) l"
  shows "match_reel_config (JObj table) (JStr M) l = Inr (JObj dflt)"
  using assms by (auto simp: match_reel_config_def bind_err_def scan_keywords_strings)

text \<open>
  C3, as the code has it. Take a comment event with string fields whose comment id is
  not stored yet, on media \<open>M\<close>. The default keywords are scanned only when the table has
  no entry for \<open>M\<close>, or a falsy one: then a comment that contains a default keyword resolves
  the default rule, and a commenter whose name is a string is sent the default rule's
  reply message. An entry for \<open>M\<close> that is a non-empty object without a non-empty reply
  message is resolved all the same, whatever the comment says: the comment is stored, the
  event ends without an exception and no reply is requested.
\<close>

theorem media_entry_blocks_default:
  assumes "REEL_KEYWORDS e = JObj table"
    and "py_get change ''field'' = Inr (JStr ''comments'')"
    and "py_get change ''value'' = Inr val"
    and "comment_with_fields e val cid T M uid sender_username"
    and "cid \<notin> set (map c_comment_id (comments s))"
  shows "(map_of table M = Some (JObj rule) \<and> rule \<noteq> []
          \<and> (map_of rule ''private_reply_message'' = None
              \<or> (\<exists>t. map_of rule ''private_reply_message'' = Some t \<and> \<not> truthy t))
        \<longrightarrow> match_reel_config (REEL_KEYWORDS e) (JStr M) (lower T) = Inr (JObj rule)
          \<and> fst (process_change e token change s) = Inr ()
          \<and> requests (snd (process_change e token change s)) = requests s
          \<and> cid \<in> set (map c_comment_id (comments (snd (process_change e token change s)))))
    \<and> ((map_of table M = None \<or> (\<exists>v. map_of table M = Some v \<and> \<not> truthy v))
        \<and> map_of table ''DEFAULT_KEYWORDS'' = Some (JObj dflt)
        \<and> map_of dflt ''keywords'' = Some (JArr (map JStr ks))
        \<and> (\<exists>k \<in> set ks. py_in (lower k) (lower T))
        \<and> map_of dflt ''private_reply_message'' = Some (JStr template) \<and> template \<noteq> []
        \<longrightarrow> match_reel_config (REEL_KEYWORDS e) (JStr M) (lower T) = Inr (JObj dflt)
          \<and> (sender_username = JStr username
              \<longrightarrow> requests (snd (process_change e token change s)) =
                  requests s @
                  [PrivateReply token (JStr cid) (py_replace template ''{username}'' username)]))"
proof -
  obtain s' where reach:
    "process_change e token change s =
       automate_reply e (JStr cid) (JStr T) (JStr M) (JStr uid) sender_username token s'"
    and req: "requests s' = requests s"
    and stored: "cid \<in> set (map c_comment_id (comments s'))"
    using process_change_stored [OF assms(2,3,4,5)] by blast
  show ?thesis
  proof (intro conjI impI)
    assume a: "map_of table M = Some (JObj rule) \<and> rule \<noteq> []
          \<and> (map_of rule ''private_reply_message'' = None
              \<or> (\<exists>t. map_of rule ''private_reply_message'' = Some t \<and> \<not> truthy t))"
    then show "match_reel_config (REEL_KEYWORDS e) (JStr M) (lower T) = Inr (JObj rule)"
      using assms(1) lookup_blocks_default by simp
    have "automate_reply e (JStr cid) (JStr T) (JStr M) (JStr uid) sender_username token s' =
          (Inr (), s')"
      using automate_reply_after_lookup [OF assms(1)] a by blast
    then have r: "process_change e token change s = (Inr (), s')" using reach by simp
    show "fst (process_change e token change s) = Inr ()" using r by simp
    show "requests (snd (process_change e token change s)) = requests s" using r req by simp
    show "cid \<in> set (map c_comment_id (comments (snd (process_change e token change s))))"
      using r stored by simp
  next
    assume a: "(map_of table M = None \<or> (\<exists>v. map_of table M = Some v \<and> \<not> truthy v))
        \<and> map_of table ''DEFAULT_KEYWORDS'' = Some (JObj dflt)
        \<and> map_of dflt ''keywords'' = Some (JArr (map JStr ks))
        \<and> (\<exists>k \<in> set ks. py_in (lower k) (lower T))
        \<and> map_of dflt ''private_reply_message'' = Some (JStr template) \<and> template \<noteq> []"
    then show "match_reel_config (REEL_KEYWORDS e) (JStr M) (lower T) = Inr (JObj dflt)"
      using assms(1) lookup_falls_through [of table M dflt ks "lower T"] by simp
    assume u: "sender_username = JStr username"
    have "requests (snd (automate_reply e (JStr cid) (JStr T) (JStr M) (JStr uid) (JStr username)
                           token s')) =
          requests s' @ [PrivateReply token (JStr cid) (py_replace template ''{username}'' username)]"
      using automate_reply_after_lookup [OF assms(1)] a by blast
    then show "requests (snd (process_change e token change s)) =
                  requests s @
                  [PrivateReply token (JStr cid) (py_replace template ''{username}'' username)]"
      using reach req u by simp
  qed
qed

theorem media_entry_blocks_default_witness:
  "REEL_KEYWORDS acme_env = JObj acme_rules
   \<and> comment_with_fields acme_env (JObj (comment_value ''c1'' ''M2'' ''send me the LINK please''))
        ''c1'' ''send me the LINK please'' ''M2'' ''u1'' (JStr ''ann'')
   \<and> comment_with_fields acme_env (JObj (comment_value ''c1'' ''M3'' ''send me the LINK please''))
        ''c1'' ''send me the LINK please'' ''M3'' ''u1'' (JStr ''ann'')
   \<and> ''c1'' \<notin> set (map c_comment_id (comments empty_state))
   \<and> map_of acme_rules ''M2'' = Some (JObj m2_rule) \<and> m2_rule \<noteq> []
   \<and> map_of m2_rule ''private_reply_message'' = None
   \<and> fst (process_change acme_env ''tok1'' (comment_change ''c1'' ''M2'' ''send me the LINK please'')
            empty_state) = Inr ()
   \<and> requests (snd (process_change acme_env ''tok1''
                      (comment_change ''c1'' ''M2'' ''send me the LINK please'') empty_state)) = []
   \<and> map_of acme_rules ''M3'' = None
   \<and> map_of acme_rules ''DEFAULT_KEYWORDS'' = Some (JObj default_rule)
   \<and> map_of default_rule ''keywords'' = Some (JArr (map JStr [''link'', ''info'']))
   \<and> py_in (lower ''link'') (lower ''send me the LINK please'')
   \<and> map_of default_rule ''private_reply_message'' = Some (JStr ''The link: example.com'')
   \<and> match_reel_config (REEL_KEYWORDS acme_env) (JStr ''M3'') (lower ''send me the LINK please'') =
       Inr (JObj default_rule)
   \<and> requests (snd (process_change acme_env ''tok1''
                      (comment_change ''c1'' ''M3'' ''send me the LINK please'') empty_state)) =
       [PrivateReply ''tok1'' (JStr ''c1'') ''The link: example.com'']"
proof -
  let ?T = "''send me the LINK please''"
  have h1: "REEL_KEYWORDS acme_env = JObj acme_rules" by (simp add: acme_env_def)
  have f2: "py_get (comment_change ''c1'' ''M2'' ?T) ''field'' = Inr (JStr ''comments'')"
    and v2: "py_get (comment_change ''c1'' ''M2'' ?T) ''value'' =
             Inr (JObj (comment_value ''c1'' ''M2'' ?T))"
    and f3: "py_get (comment_change ''c1'' ''M3'' ?T) ''field'' = Inr (JStr ''comments'')"
    and v3: "py_get (comment_change ''c1'' ''M3'' ?T) ''value'' =
             Inr (JObj (comment_value ''c1'' ''M3'' ?T))"
    by (simp_all add: comment_change_def)
  have w2: "comment_with_fields acme_env (JObj (comment_value ''c1'' ''M2'' ?T))
              ''c1'' ?T ''M2'' ''u1'' (JStr ''ann'')"
    and w3: "comment_with_fields acme_env (JObj (comment_value ''c1'' ''M3'' ?T))
              ''c1'' ?T ''M3'' ''u1'' (JStr ''ann'')"
    by (simp_all add: comment_with_fields_def comment_value_def bind_err_def fromtimestamp_def
        acme_env_def)
  have fresh: "''c1'' \<notin> set (map c_comment_id (comments empty_state))"
    by (simp add: empty_state_def)
  have a: "map_of acme_rules ''M2'' = Some (JObj m2_rule)" "m2_rule \<noteq> []"
    "map_of m2_rule ''private_reply_message'' = None" "map_of acme_rules ''M3'' = None"
    "map_of acme_rules ''DEFAULT_KEYWORDS'' = Some (JObj default_rule)"
    "map_of default_rule ''keywords'' = Some (JArr (map JStr [''link'', ''info'']))"
    "map_of default_rule ''private_reply_message'' = Some (JStr ''The link: example.com'')"
    by (simp_all add: acme_rules_def m2_rule_def default_rule_def)
  have k: "py_in (lower ''link'') (lower ?T)"
    by (simp add: lower_def lower_char_def)
  have r: "py_replace ''The link: example.com'' ''{username}'' ''ann'' = ''The link: example.com''"
    by simp
  show ?thesis
    using h1 w2 w3 fresh a k r
      media_entry_blocks_default [OF h1 f2 v2 w2 fresh, where rule = m2_rule
        and token = "''tok1''"]
      media_entry_blocks_default [OF h1 f3 v3 w3 fresh, where rule = m2_rule
        and token = "''tok1''" and dflt = default_rule and ks = "[''link'', ''info'']"
        and template = "''The link: example.com''" and username = "''ann''"]
    by (simp add: empty_state_def)
qed

theorem media_entry_blocks_default_counterexample:
  "map_of acme_rules ''M2'' = Some (JObj m2_rule)
   \<and> map_of m2_rule ''private_reply_message'' = None
   \<and> py_in (lower ''link'') (lower ''send me the LINK please'')
   \<and> handle_webhook acme_env
        (delivery [changes_entry [comment_change ''c1'' ''M2'' ''send me the LINK please'']])
        empty_state =
       (Inr ok_response,
        \<lparr>users = [\<lparr>u_id = 1, u_psid = None, u_instagram_id = Some ''u1'',
                    u_instagram_username = Some ''ann'',
                    u_created_at = FromTimestamp 1700000000000,
                    u_last_interaction_at = UtcNow, u_conversation_state = ''idle''\<rparr>],
         messages = [],
         comments = [\<lparr>c_id = 1, c_user_id = Some 1, c_comment_id = ''c1'', c_media_id = ''M2'',
                       c_comment_text = Some ''send me the LINK please'',
                       c_timestamp = FromTimestamp 1700000000000,
                       c_raw_payload = comment_change ''c1'' ''M2'' ''send me the LINK please''\<rparr>],
         requests = []\<rparr>)"
  by (simp add: example_defs handle_webhook_def process_entry_def
     current_page_config_of_def recipient_page_id_of_def process_change_def process_comment_def
     automate_reply_def match_reel_config_def fromtimestamp_def query_user_by_instagram_id_def
     add_user_def add_comment_def prog_defs unique_ok_def next_id_def lower_def lower_char_def
     Let_def)

text \<open>
  C4, as the code has it. The default keywords are scanned when the lookup of the media
  id in the rule table gives nothing truthy (no entry, or a falsy one): then the default
  rule is selected exactly when the lower-cased form of one of its keywords is a substring
  of the lower-cased comment, and a keyword that matches ends the scan, so what follows it
  in the list, strings or not, is never looked at. When the lookup gives a truthy entry,
  with or without a reply message, that entry is selected and no keyword is looked at.
\<close>

theorem default_keyword_scan:
  assumes "py_get_key reel_keywords media_id = Inr specific"
  shows "(truthy specific \<longrightarrow> match_reel_config reel_keywords media_id (lower T) = Inr specific)
    \<and> (\<not> truthy specific
        \<and> py_get_default reel_keywords ''DEFAULT_KEYWORDS'' (JObj []) = Inr default_keywords_config
        \<and> py_get_default default_keywords_config ''keywords'' (JArr []) = Inr (JArr (map JStr ks))
        \<longrightarrow> match_reel_config reel_keywords media_id (lower T) =
            Inr (if \<exists>k \<in> set ks. \<exists>pre suf. lower T = pre @ lower k @ suf
                 then default_keywords_config else specific))
    \<and> (\<not> truthy specific
        \<and> py_get_default reel_keywords ''DEFAULT_KEYWORDS'' (JObj []) = Inr default_keywords_config
        \<and> py_get_default default_keywords_config ''keywords'' (JArr []) =
             Inr (JArr (map JStr ks @ JStr k # rest))
        \<and> (\<exists>pre suf. lower T = pre @ lower k @ suf)
        \<longrightarrow> match_reel_config reel_keywords media_id (lower T) = Inr default_keywords_config)"
  using assms
  by (auto simp: match_reel_config_def bind_err_def scan_keywords_strings scan_keywords_stops
      py_in_iff)

theorem default_keyword_scan_witness:
  "py_get_key (JObj acme_rules) (JStr ''M3'') = Inr JNull \<and> \<not> truthy JNull
   \<and> py_get_default (JObj acme_rules) ''DEFAULT_KEYWORDS'' (JObj []) = Inr (JObj default_rule)
   \<and> py_get_default (JObj default_rule) ''keywords'' (JArr []) =
       Inr (JArr (map JStr [''link'', ''info'']))
   \<and> lower ''send me the LINK please'' = ''send me the '' @ lower ''link'' @ '' please''
   \<and> match_reel_config (JObj acme_rules) (JStr ''M3'') (lower ''send me the LINK please'') =
       Inr (JObj default_rule)
   \<and> match_reel_config (JObj acme_rules) (JStr ''M3'') (lower ''no keyword here'') = Inr JNull
   \<and> py_get_key (JObj acme_rules) (JStr ''M1'') = Inr (JObj m1_rule) \<and> truthy (JObj m1_rule)
   \<and> match_reel_config (JObj acme_rules) (JStr ''M1'') (lower ''send me the LINK please'') =
       Inr (JObj m1_rule)"
proof -
  have h1: "py_get_key (JObj acme_rules) (JStr ''M3'') = Inr JNull"
    by (simp add: acme_rules_def)
  have h2: "\<not> truthy JNull" by simp
  have h3: "py_get_default (JObj acme_rules) ''DEFAULT_KEYWORDS'' (JObj []) =
            Inr (JObj default_rule)"
    by (simp add: acme_rules_def)
  have h4: "py_get_default (JObj default_rule) ''keywords'' (JArr []) =
            Inr (JArr (map JStr [''link'', ''info'']))"
    by (simp add: default_rule_def)
  have h5: "py_get_key (JObj acme_rules) (JStr ''M1'') = Inr (JObj m1_rule)"
    by (simp add: acme_rules_def)
  have h6: "truthy (JObj m1_rule)" by (simp add: m1_rule_def)
  have l: "lower ''send me the LINK please'' = ''send me the '' @ lower ''link'' @ '' please''"
    by (simp add: lower_def lower_char_def)
  have yes: "\<exists>k \<in> set [''link'', ''info'']. \<exists>pre suf.
               lower ''send me the LINK please'' = pre @ lower k @ suf"
    using l by (metis list.set_intros(1))
  have no: "\<not> (\<exists>k \<in> set [''link'', ''info'']. \<exists>pre suf.
               lower ''no keyword here'' = pre @ lower k @ suf)"
    unfolding py_in_iff [symmetric] by (simp add: lower_def lower_char_def)
  show ?thesis
    using h1 h2 h3 h4 h5 h6 l yes no
      default_keyword_scan [OF h1, where default_keywords_config = "JObj default_rule"
        and ks = "[''link'', ''info'']" and T = "''send me the LINK please''"]
      default_keyword_scan [OF h1, where default_keywords_config = "JObj default_rule"
        and ks = "[''link'', ''info'']" and T = "''no keyword here''"]
      default_keyword_scan [OF h5, where T = "''send me the LINK please''"]
    by simp
qed

text \<open>
  The rule table has an entry for \<open>M2\<close> that has keywords and no reply message, so no
  rule of \<open>M2\<close> can answer; the comment contains the default keyword \<open>info\<close>. The lookup of
  \<open>M2\<close> is truthy, so the default keywords are not scanned and the default rule is not
  selected.
\<close>

theorem default_keyword_scan_counterexample:
  "map_of acme_rules ''M2'' = Some (JObj m2_rule)
   \<and> map_of m2_rule ''private_reply_message'' = None
   \<and> map_of acme_rules ''DEFAULT_KEYWORDS'' = Some (JObj default_rule)
   \<and> map_of default_rule ''keywords'' = Some (JArr [JStr ''link'', JStr ''info''])
   \<and> lower ''Any INFO?'' = ''any '' @ lower ''info'' @ ''?''
   \<and> match_reel_config (REEL_KEYWORDS acme_env) (JStr ''M2'') (lower ''Any INFO?'') =
       Inr (JObj m2_rule)
   \<and> JObj m2_rule \<noteq> JObj default_rule"
  by (simp add: example_defs match_reel_config_def bind_err_def lower_def lower_char_def)

text \<open>
  C5, as the code has it. With mode, token and challenge all present and non-empty, the
  answer is the challenge with status 200 when the mode is \<^verbatim>\<open>subscribe\<close> and the token is the
  configured one, and 403 otherwise; a parameter that is missing or empty gives 400.
\<close>

theorem verify_webhook_cases:
  "(mode = Some ''subscribe'' \<and> token = Some t \<and> t \<noteq> [] \<and> VERIFY_TOKEN e = Some t
      \<and> challenge = Some c \<and> c \<noteq> []
      \<longrightarrow> verify_webhook e mode token challenge = (Text c, 200))
   \<and> (mode = Some m \<and> m \<noteq> [] \<and> token = Some t \<and> t \<noteq> [] \<and> challenge = Some c \<and> c \<noteq> []
      \<and> (m \<noteq> ''subscribe'' \<or> VERIFY_TOKEN e \<noteq> Some t)
      \<longrightarrow> verify_webhook e mode token challenge = (Text ''Verification token mismatch'', 403))
   \<and> (mode \<in> {None, Some []} \<or> token \<in> {None, Some []} \<or> challenge \<in> {None, Some []}
      \<longrightarrow> verify_webhook e mode token challenge = (Text ''Missing parameters'', 400))"
  by (auto simp: verify_webhook_def arg_truthy_def)

theorem verify_webhook_cases_witness:
  "VERIFY_TOKEN acme_env = Some ''s3cret''
   \<and> verify_webhook acme_env (Some ''subscribe'') (Some ''s3cret'') (Some ''1158201444'') =
       (Text ''1158201444'', 200)
   \<and> verify_webhook acme_env (Some ''subscribe'') (Some ''guess'') (Some ''1158201444'') =
       (Text ''Verification token mismatch'', 403)
   \<and> verify_webhook acme_env (Some ''subscribe'') (Some ''s3cret'') None =
       (Text ''Missing parameters'', 400)"
proof -
  have tok: "VERIFY_TOKEN acme_env = Some ''s3cret''" by (simp add: acme_env_def)
  have neq: "VERIFY_TOKEN acme_env \<noteq> Some ''guess''" by (simp add: acme_env_def)
  show ?thesis
    using tok neq
      verify_webhook_cases [of "Some ''subscribe''" "Some ''s3cret''" "''s3cret''" acme_env
        "Some ''1158201444''" "''1158201444''" "''subscribe''"]
      verify_webhook_cases [of "Some ''subscribe''" "Some ''guess''" "''guess''" acme_env
        "Some ''1158201444''" "''1158201444''" "''subscribe''"]
      verify_webhook_cases [of "Some ''subscribe''" "Some ''s3cret''" "''s3cret''" acme_env
        None "''1158201444''" "''subscribe''"]
    by simp
qed

theorem verify_webhook_empty_challenge:
  "verify_webhook acme_env (Some ''subscribe'') (Some ''s3cret'') (Some '''') =
     (Text ''Missing parameters'', 400)"
  by (simp add: verify_webhook_def arg_truthy_def acme_env_def)

















text \<open>
  The two branches of \<^verbatim>\<open>if is_follower\<close>. For false, the private reply requested for the
  comment id is the follow request, whatever the rule says; for true and a commenter whose
  name is the string \<open>username\<close>, it is the rule's message with the name filled in.
\<close>

lemma follower_branches:
  "requests (snd (reply_to_comment e False matched comment_id sender_username token s)) =
     requests s @
     [PrivateReply token comment_id
        (''Hi @'' @ py_str sender_username @
         '', thanks for your comment! To get the link, please follow our page first. Once you follow, comment again or send us a DM, and we''
         @ [CHR 0x27] @ ''ll send it right over!'')]
   \<and> (py_getitem matched ''private_reply_message'' = Inr (JStr template)
      \<longrightarrow> requests (snd (reply_to_comment e True matched comment_id (JStr username) token s)) =
          requests s @ [PrivateReply token comment_id (py_replace template ''{username}'' username)])"
  by (simp add: reply_to_comment_def requests_private_reply replace_username_def
      non_follower_dm_message_def prog_defs)

text \<open>
  C8 at a commenter without \<^verbatim>\<open>username\<close>, on \<open>M1\<close>, whose rule has a reply message.
  \<^verbatim>\<open>check_if_user_follows_page\<close> returns true, and the branch for true raises \<^verbatim>\<open>TypeError\<close> in
  \<^verbatim>\<open>dm_message.replace("{username}", None)\<close>: no reply is requested and the exception leaves
  the handler. The branch for false formats the same name with an f-string and requests
  the follow request for \<^verbatim>\<open>@None\<close>.
\<close>

theorem follower_reply_raises:
  "check_if_user_follows_page (JStr ''u1'') ''tok1'' = True
   \<and> reply_to_comment acme_env True (JObj m1_rule) (JStr ''c4'') JNull ''tok1'' empty_state =
       (Inl TypeError, empty_state)
   \<and> requests (snd (reply_to_comment acme_env False (JObj m1_rule) (JStr ''c4'') JNull ''tok1''
                      empty_state)) =
       [PrivateReply ''tok1'' (JStr ''c4'')
          (''Hi @None, thanks for your comment! To get the link, please follow our page first. Once you follow, comment again or send us a DM, and we''
           @ [CHR 0x27] @ ''ll send it right over!'')]
   \<and> fst (handle_webhook acme_env
            (delivery [changes_entry [anonymous_comment_change ''c4'' ''M1'' ''price?'']])
            empty_state) = Inl TypeError
   \<and> requests (snd (handle_webhook acme_env
            (delivery [changes_entry [anonymous_comment_change ''c4'' ''M1'' ''price?'']])
            empty_state)) = []"
  by (simp add: example_defs model_defs non_follower_dm_message_def)

text \<open>
  C9 at a commenter without \<^verbatim>\<open>username\<close>. The comment passes the guard, the user and the
  comment are stored, a rule is resolved (the rule of \<open>M1\<close>, or the default rule, whose
  message has no placeholder), and \<^verbatim>\<open>dm_message.replace("{username}", None)\<close> raises
  \<^verbatim>\<open>TypeError\<close>: no reply is requested, and the exception leaves the handler.
\<close>

theorem absent_username_raises:
  "handle_webhook acme_env
     (delivery [changes_entry [anonymous_comment_change ''c1'' ''M1'' ''Nice reel'']]) empty_state =
     (Inl TypeError,
      \<lparr>users = [\<lparr>u_id = 1, u_psid = None, u_instagram_id = Some ''u1'',
                  u_instagram_username = None, u_created_at = FromTimestamp 1700000000000,
                  u_last_interaction_at = UtcNow, u_conversation_state = ''idle''\<rparr>],
       messages = [],
       comments = [\<lparr>c_id = 1, c_user_id = Some 1, c_comment_id = ''c1'', c_media_id = ''M1'',
                     c_comment_text = Some ''Nice reel'',
                     c_timestamp = FromTimestamp 1700000000000,
                     c_raw_payload = anonymous_comment_change ''c1'' ''M1'' ''Nice reel''\<rparr>],
       requests = []\<rparr>)
   \<and> fst (handle_webhook acme_env
            (delivery [changes_entry [anonymous_comment_change ''c2'' ''M3'' ''link please'']])
            empty_state) = Inl TypeError
   \<and> requests (snd (handle_webhook acme_env
            (delivery [changes_entry [anonymous_comment_change ''c2'' ''M3'' ''link please'']])
            empty_state)) = []"
  by (simp add: example_defs model_defs)

text \<open>
  C10. A delivery that holds, at any position, an entry routed to an account whose
  \<^verbatim>\<open>changes\<close> hold, at any position, a well-formed comment whose comment id is already in the
  Comment table when the delivery arrives, everything before it in the delivery being
  processed without an exception: \<^verbatim>\<open>db.session.commit()\<close> of the new Comment raises
  \<^verbatim>\<open>IntegrityError\<close> while that change is processed, the exception leaves the handler in
  place of a response, and the rows of the Comment table with that comment id are the ones
  there were (no second row, and none replaced).
\<close>

theorem duplicate_comment_id_raises:
  assumes delivery: "py_get data ''entry'' = Inr (JArr (before @ entry # after))"
    and earlier_entries: "fst (for_each (process_entry e) before s) = Inr ()"
    and routed: "current_page_config_of e entry = Inr (Some account)"
    and no_messaging: "absent (py_get entry ''messaging'')"
    and changes: "py_get entry ''changes'' = Inr (JArr (cbefore @ change # cafter))"
    and earlier_changes:
      "fst (for_each (process_change e (page_access_token account)) cbefore
              (snd (for_each (process_entry e) before s))) = Inr ()"
    and field: "py_get change ''field'' = Inr (JStr ''comments'')"
    and val: "py_get change ''value'' = Inr val"
    and well_formed: "comment_with_fields e val cid text mid uid un"
    and stored: "cid \<in> set (map c_comment_id (comments s))"
  shows "fst (process_change e (page_access_token account) change
                (snd (for_each (process_change e (page_access_token account)) cbefore
                        (snd (for_each (process_entry e) before s))))) = Inl IntegrityError
    \<and> fst (handle_webhook e data s) = Inl IntegrityError
    \<and> rows_with_comment_id cid (snd (handle_webhook e data s)) = rows_with_comment_id cid s"
proof -
  let ?token = "page_access_token account"
  define rows where "rows = rows_with_comment_id cid s"
  define s0 where "s0 = snd (for_each (process_entry e) before s)"
  define s1 where "s1 = snd (for_each (process_change e ?token) cbefore s0)"
  have "rows \<noteq> []"
    using stored by (auto simp: rows_def rows_with_comment_id_def filter_empty_conv)
  then have "keeps_rows cid rows s" by (simp add: keeps_rows_def rows_def)
  then have "keeps_rows cid rows s0" unfolding s0_def by (rule rows_for_each_entry)
  then have keeps: "keeps_rows cid rows s1"
    unfolding s1_def by (intro for_each_rows rows_process_change)
  then have "cid \<in> set (map c_comment_id (comments s1))"
    by (auto simp: keeps_rows_def rows_with_comment_id_def filter_empty_conv)
  then obtain s' where change_raises:
    "process_change e ?token change s1 = (Inl IntegrityError, s')"
    and same: "comments s' = comments s1"
    using process_change_duplicate [OF field val well_formed] by blast
  have run0: "for_each (process_entry e) before s = (Inr (), s0)"
    using earlier_entries by (simp add: s0_def prod_eq_iff)
  have run1: "for_each (process_change e ?token) cbefore s0 = (Inr (), s1)"
    using earlier_changes by (simp add: s1_def s0_def prod_eq_iff)
  have "for_each (process_change e ?token) (change # cafter) s1 = (Inl IntegrityError, s')"
    using change_raises by (simp add: and_then_raises)
  then have "for_each (process_change e ?token) (cbefore @ change # cafter) s0 =
             (Inl IntegrityError, s')"
    using run1 by (simp add: for_each_append and_then_def)
  moreover obtain m where "py_get entry ''messaging'' = Inr m" "\<not> truthy m"
    using no_messaging changes by (cases entry) (auto simp: absent_def)
  ultimately have "process_entry e entry s0 = (Inl IntegrityError, s')"
    using routed changes by (simp add: process_entry_def and_then_lift_Inr)
  then have "for_each (process_entry e) (entry # after) s0 = (Inl IntegrityError, s')"
    by (simp add: and_then_raises)
  then have "for_each (process_entry e) (before @ entry # after) s = (Inl IntegrityError, s')"
    using run0 by (simp add: for_each_append and_then_def)
  moreover have "truthy data" using delivery by (cases data) auto
  ultimately have "handle_webhook e data s = (Inl IntegrityError, s')"
    using delivery by (simp add: handle_webhook_def and_then_lift_Inr and_then_raises)
  moreover have "rows_with_comment_id cid s' = rows_with_comment_id cid s"
    using keeps same by (simp add: keeps_rows_def rows_with_comment_id_def rows_def)
  ultimately show ?thesis using change_raises by (simp add: s1_def s0_def)
qed

theorem duplicate_comment_id_raises_witness:
  "''c1'' \<in> set (map c_comment_id (comments after_first_delivery))
   \<and> fst (handle_webhook acme_env
             (delivery [stranger_entry,
                changes_entry [comment_change ''c2'' ''M1'' ''More'',
                               comment_change ''c1'' ''M1'' ''Nice reel'',
                               comment_change ''c3'' ''M1'' ''Last'']])
             after_first_delivery) = Inl IntegrityError
   \<and> rows_with_comment_id ''c1''
        (snd (handle_webhook acme_env
                (delivery [stranger_entry,
                   changes_entry [comment_change ''c2'' ''M1'' ''More'',
                                  comment_change ''c1'' ''M1'' ''Nice reel'',
                                  comment_change ''c3'' ''M1'' ''Last'']])
                after_first_delivery)) = rows_with_comment_id ''c1'' after_first_delivery
   \<and> length (rows_with_comment_id ''c1'' after_first_delivery) = 1"
proof -
  let ?c2 = "comment_change ''c2'' ''M1'' ''More''"
  let ?c1 = "comment_change ''c1'' ''M1'' ''Nice reel''"
  let ?c3 = "comment_change ''c3'' ''M1'' ''Last''"
  let ?entry = "changes_entry [?c2, ?c1, ?c3]"
  let ?val = "JObj (comment_value ''c1'' ''M1'' ''Nice reel'')"
  let ?account = "\<lparr>page_id = ''P1'', page_access_token = ''tok1''\<rparr>"
  have stored: "''c1'' \<in> set (map c_comment_id (comments after_first_delivery))"
    and one: "length (rows_with_comment_id ''c1'' after_first_delivery) = 1"
    by (simp_all add: after_first_delivery_def rows_with_comment_id_def example_defs
        model_defs Let_def)
  have skipped: "for_each (process_entry acme_env) [stranger_entry] after_first_delivery =
                 (Inr (), after_first_delivery)"
    by (simp add: example_defs process_entry_def current_page_config_of_def
        recipient_page_id_of_def prog_defs)
  have h: "py_get (delivery [stranger_entry, ?entry]) ''entry'' =
             Inr (JArr ([stranger_entry] @ ?entry # []))"
    "current_page_config_of acme_env ?entry = Inr (Some ?account)"
    "absent (py_get ?entry ''messaging'')"
    "py_get ?entry ''changes'' = Inr (JArr ([?c2] @ ?c1 # [?c3]))"
    "py_get ?c1 ''field'' = Inr (JStr ''comments'')"
    "py_get ?c1 ''value'' = Inr ?val"
    "comment_with_fields acme_env ?val ''c1'' ''Nice reel'' ''M1'' ''u1'' (JStr ''ann'')"
    by (simp_all add: example_defs current_page_config_of_def recipient_page_id_of_def
        fromtimestamp_def bind_err_def absent_def comment_with_fields_def)
  have first: "fst (for_each (process_entry acme_env) [stranger_entry] after_first_delivery) =
               Inr ()"
    using skipped by simp
  have second: "fst (for_each (process_change acme_env (page_access_token ?account)) [?c2]
                  (snd (for_each (process_entry acme_env) [stranger_entry]
                          after_first_delivery))) = Inr ()"
    unfolding skipped
    by (simp add: after_first_delivery_def example_defs model_defs Let_def)
  show ?thesis
    using stored one
      duplicate_comment_id_raises [OF h(1) first h(2) h(3) h(4) second h(5) h(6) h(7) stored]
    by simp
qed

end
